theory Spec2Isabelle
  imports Complex_Main
begin

section \<open>The sticky header component (HeaderComponent)\<close>

text \<open>
  The custom element \<^verbatim>\<open>header-component\<close> keeps private fields, writes attributes of
  its own DOM node and of two referenced nodes, and registers callbacks with the browser
  (a ResizeObserver, an IntersectionObserver, a scroll listener, one timeout and one
  animation frame). The model is a record holding the private fields, the part of the
  DOM the element writes, and the part of the browser that holds its pending callbacks.
  Every handler is a function from that record to the updated record.
\<close>

subsection \<open>DOM writes\<close>

text \<open>
  Every write the component makes to the DOM, in program order. The value published as
  \<^verbatim>\<open>--header-height\<close> is the template string \<^verbatim>\<open>${height}px\<close>; it is kept as the
  number in front of the unit, so \<^verbatim>\<open>0px\<close> is \<open>Px 0\<close>.
\<close>

datatype css_length = Px real

datatype effect =
    WriteStickyState string
  | WriteScrollDirection string
  | SetAnimating
  | RemoveAnimating
  | SetHeaderHeight css_length
  | ChangeMetaThemeColor
  | DrawerRemoveDesktopHidden
  | DrawerAddDesktopHidden
  | MenuAddHidden
  | MenuRemoveHidden

subsection \<open>State\<close>

text \<open>
  The IntersectionObserver the component creates: its threshold, the \<^verbatim>\<open>alwaysSticky\<close>
  flag captured by its callback, and whether it still observes the element.
\<close>

record intersection_observer =
  threshold :: real
  alwaysSticky :: bool
  observing :: bool

text \<open>
  An IntersectionObserverEntry: the \<^verbatim>\<open>isIntersecting\<close> flag, which is all the component
  reads of it, and the visibility ratio the browser reports with it.
\<close>

record intersection_entry =
  isIntersecting :: bool
  intersectionRatio :: real

record header =
  sticky :: "string option"                \<comment> \<open>the \<^verbatim>\<open>sticky\<close> attribute\<close>
  stickyState :: "string option"           \<comment> \<open>\<^verbatim>\<open>dataset.stickyState\<close>\<close>
  scrollDirection :: "string option"       \<comment> \<open>\<^verbatim>\<open>dataset.scrollDirection\<close>\<close>
  animating :: bool                        \<comment> \<open>the \<^verbatim>\<open>data-animating\<close> attribute is present\<close>
  headerHeight :: "css_length option"      \<comment> \<open>\<^verbatim>\<open>--header-height\<close> on the body\<close>
  drawerDesktopHidden :: bool              \<comment> \<open>class \<^verbatim>\<open>desktop:hidden\<close> on the drawer container\<close>
  menuHidden :: bool                       \<comment> \<open>class \<^verbatim>\<open>hidden\<close> on the header menu\<close>
  menuDrawerHiddenWidth :: "int option"
  intersectionObserver :: "intersection_observer option"
  offscreen :: bool
  lastScrollTop :: real
  timeout :: "nat option"
  isIOSSafari :: bool
  safariIntersectionTimeout :: "nat option"
  resizeObserving :: bool                  \<comment> \<open>the ResizeObserver observes the element\<close>
  overflowListener :: bool                 \<comment> \<open>listener for \<^verbatim>\<open>overflowMinimum\<close> registered\<close>
  scrollListener :: bool                   \<comment> \<open>document scroll listener registered\<close>
  clock :: nat                             \<comment> \<open>browser time in milliseconds\<close>
  timers :: "(nat \<times> nat) list"             \<comment> \<open>pending timeouts: handle and due time\<close>
  frames :: "nat list"                     \<comment> \<open>pending animation frame callbacks\<close>
  nextHandle :: nat                        \<comment> \<open>next handle the browser hands out\<close>
  effects :: "effect list"                 \<comment> \<open>DOM writes so far, oldest first\<close>

text \<open>The geometry a scroll handler or a frame callback reads from the document.\<close>

record geometry =
  scrollingElementScrollTop :: "real option"   \<comment> \<open>\<open>None\<close>: no scrolling element\<close>
  boundingTop :: real                          \<comment> \<open>\<^verbatim>\<open>getBoundingClientRect().top\<close>\<close>

definition animationDelay :: nat where
  "animationDelay = 150"

text \<open>JavaScript truthiness of a \<^verbatim>\<open>number | null\<close> field.\<close>

fun truthyHandle :: "nat option \<Rightarrow> bool" where
  "truthyHandle None = False"
| "truthyHandle (Some h) = (h \<noteq> 0)"

fun truthyWidth :: "int option \<Rightarrow> bool" where
  "truthyWidth None = False"
| "truthyWidth (Some w) = (w \<noteq> 0)"

text \<open>\<^verbatim>\<open>document.scrollingElement?.scrollTop ?? 0\<close>\<close>

definition readScrollTop :: "geometry \<Rightarrow> real" where
  "readScrollTop g = (case scrollingElementScrollTop g of None \<Rightarrow> 0 | Some v \<Rightarrow> v)"

subsection \<open>Attribute writes\<close>

definition writeStickyState :: "string \<Rightarrow> header \<Rightarrow> header" where
  "writeStickyState v s =
     s\<lparr>stickyState := Some v, effects := effects s @ [WriteStickyState v]\<rparr>"

definition writeScrollDirection :: "string \<Rightarrow> header \<Rightarrow> header" where
  "writeScrollDirection v s =
     s\<lparr>scrollDirection := Some v, effects := effects s @ [WriteScrollDirection v]\<rparr>"

definition setAnimating :: "header \<Rightarrow> header" where
  "setAnimating s = s\<lparr>animating := True, effects := effects s @ [SetAnimating]\<rparr>"

definition removeAnimating :: "header \<Rightarrow> header" where
  "removeAnimating s = s\<lparr>animating := False, effects := effects s @ [RemoveAnimating]\<rparr>"

definition setHeaderHeight :: "css_length \<Rightarrow> header \<Rightarrow> header" where
  "setHeaderHeight v s =
     s\<lparr>headerHeight := Some v, effects := effects s @ [SetHeaderHeight v]\<rparr>"

text \<open>
  Modelled from the spec: the utility \<^verbatim>\<open>changeMetaThemeColor\<close> is imported from
  \<^verbatim>\<open>@theme/utilities\<close>, which is not among the sources. The spec describes it as the
  update of the browser's theme colour that follows a state write; the model records the
  call as one write and nothing else.
\<close>

definition changeMetaThemeColor :: "header \<Rightarrow> header" where
  "changeMetaThemeColor s = s\<lparr>effects := effects s @ [ChangeMetaThemeColor]\<rparr>"

subsection \<open>Browser timers\<close>

definition clearTimeout :: "nat \<Rightarrow> header \<Rightarrow> header" where
  "clearTimeout h s = s\<lparr>timers := filter (\<lambda>t. fst t \<noteq> h) (timers s)\<rparr>"

definition cancelAnimationFrame :: "nat \<Rightarrow> header \<Rightarrow> header" where
  "cancelAnimationFrame h s = s\<lparr>frames := filter (\<lambda>f. f \<noteq> h) (frames s)\<rparr>"

text \<open>
  The guard \<^verbatim>\<open>if (this.#timeout) { clearTimeout(this.#timeout); this.#timeout = null; }\<close>
  that both the scroll handler and \<^verbatim>\<open>disconnectedCallback\<close> run.
\<close>

definition cancelPendingTimeout :: "header \<Rightarrow> header" where
  "cancelPendingTimeout s =
     (case timeout s of
        None \<Rightarrow> s
      | Some h \<Rightarrow> if truthyHandle (Some h) then (clearTimeout h s)\<lparr>timeout := None\<rparr> else s)"

subsection \<open>Menu and drawer\<close>

definition updateMenuVisibility :: "bool \<Rightarrow> int \<Rightarrow> header \<Rightarrow> header" where
  "updateMenuVisibility hideMenu innerWidth s =
     (if hideMenu then
        s\<lparr>drawerDesktopHidden := False,
          menuDrawerHiddenWidth := Some innerWidth,
          menuHidden := True,
          effects := effects s @ [DrawerRemoveDesktopHidden, MenuAddHidden]\<rparr>
      else
        s\<lparr>drawerDesktopHidden := True,
          menuDrawerHiddenWidth := None,
          menuHidden := False,
          effects := effects s @ [DrawerAddDesktopHidden, MenuRemoveHidden]\<rparr>)"

definition handleOverflowMinimum :: "bool \<Rightarrow> int \<Rightarrow> header \<Rightarrow> header" where
  "handleOverflowMinimum minimumReached innerWidth s =
     updateMenuVisibility minimumReached innerWidth s"

text \<open>
  The ResizeObserver callback. Its argument is the list of entries, each given by the
  height of its target's bounding box; \<open>innerWidth\<close> is \<^verbatim>\<open>window.innerWidth\<close>.
\<close>

definition resizeCallback :: "real list \<Rightarrow> int \<Rightarrow> header \<Rightarrow> header" where
  "resizeCallback entries innerWidth s =
     (case entries of
        [] \<Rightarrow> s
      | height # _ \<Rightarrow>
          let s1 = setHeaderHeight (Px height) s in
          if truthyWidth (menuDrawerHiddenWidth s1)
             \<and> (case menuDrawerHiddenWidth s1 of None \<Rightarrow> False | Some w \<Rightarrow> innerWidth > w)
          then updateMenuVisibility False innerWidth s1
          else s1)"

subsection \<open>Intersection\<close>

definition handleIntersectionUpdate :: "intersection_entry \<Rightarrow> bool \<Rightarrow> header \<Rightarrow> header" where
  "handleIntersectionUpdate entry always s =
     (if always then
        if isIOSSafari s then s
        else
          let newState = (if isIntersecting entry then ''inactive'' else ''active'')
          in changeMetaThemeColor (writeStickyState newState s)
      else
        s\<lparr>offscreen := (\<not> isIntersecting entry \<or> stickyState s = Some ''active'')\<rparr>)"

definition intersectionCallback :: "intersection_entry list \<Rightarrow> bool \<Rightarrow> header \<Rightarrow> header" where
  "intersectionCallback entries always s =
     (case entries of [] \<Rightarrow> s | entry # _ \<Rightarrow> handleIntersectionUpdate entry always s)"

definition observeStickyPosition :: "bool \<Rightarrow> header \<Rightarrow> header" where
  "observeStickyPosition always s =
     (case intersectionObserver s of
        Some _ \<Rightarrow> s
      | None \<Rightarrow>
          s\<lparr>intersectionObserver :=
              Some \<lparr>threshold = (if always then 95 / 100 else 0),
                    alwaysSticky = always,
                    observing = True\<rparr>\<rparr>)"

subsection \<open>Scroll\<close>

text \<open>The test both the scroll handler and its frame callback apply on iOS Safari.\<close>

definition isAtTopWithThreshold :: "geometry \<Rightarrow> bool" where
  "isAtTopWithThreshold g = (boundingTop g \<ge> - 5 \<and> readScrollTop g \<le> 5)"

text \<open>The callback passed to \<^verbatim>\<open>requestAnimationFrame\<close>; \<open>g\<close> is the geometry when it runs.\<close>

definition safariFrameCallback :: "geometry \<Rightarrow> header \<Rightarrow> header" where
  "safariFrameCallback g s =
     (let s1 = s\<lparr>safariIntersectionTimeout := None\<rparr>;
          currentNewState = (if isAtTopWithThreshold g then ''inactive'' else ''active'')
      in if stickyState s1 \<noteq> Some currentNewState
         then changeMetaThemeColor (writeStickyState currentNewState s1)
         else s1)"

text \<open>The callback passed to \<^verbatim>\<open>setTimeout\<close>.\<close>

definition hideTimeoutCallback :: "header \<Rightarrow> header" where
  "hideTimeoutCallback s = removeAnimating (writeStickyState ''idle'' s)"

definition requestSafariFrame :: "header \<Rightarrow> header" where
  "requestSafariFrame s =
     (let h = nextHandle s in
      s\<lparr>frames := frames s @ [h], nextHandle := Suc h,
        safariIntersectionTimeout := Some h\<rparr>)"

definition scheduleHideTimeout :: "header \<Rightarrow> header" where
  "scheduleHideTimeout s =
     (let h = nextHandle s in
      s\<lparr>timers := timers s @ [(h, clock s + animationDelay)], nextHandle := Suc h,
        timeout := Some h\<rparr>)"

text \<open>
  The scroll handler. The geometry \<open>g\<close> is what the document shows while the handler
  runs: it reads \<^verbatim>\<open>scrollTop\<close> and the bounding box more than once, with nothing in
  between that could change them. On iOS Safari it computes \<^verbatim>\<open>newState\<close> and never uses
  it; the binding is kept.
\<close>

definition handleWindowScroll :: "geometry \<Rightarrow> header \<Rightarrow> header" where
  "handleWindowScroll g s =
     (let stickyMode = sticky s in
      if \<not> offscreen s \<and> stickyMode \<noteq> Some ''always'' then s
      else
        let scrollTop = readScrollTop g;
            isScrollingUp = (scrollTop < lastScrollTop s);
            s1 = cancelPendingTimeout s
        in
        if stickyMode = Some ''always'' then
          let isAtTop = (boundingTop g \<ge> 0);
              s2 = (if isIOSSafari s1 then
                      let newState = (if isAtTopWithThreshold g then ''inactive'' else ''active'')
                      in if safariIntersectionTimeout s1 = None
                         then requestSafariFrame s1 else s1
                    else s1);
              s3 = (if isAtTop then writeScrollDirection ''none'' s2
                    else if isScrollingUp then writeScrollDirection ''up'' s2
                    else writeScrollDirection ''down'' s2)
          in s3\<lparr>lastScrollTop := scrollTop\<rparr>
        else
          let s2 =
            (if isScrollingUp then
               let s1a = removeAnimating s1;
                   isAtTop = (boundingTop g \<ge> 0)
               in if isAtTop then
                    writeScrollDirection ''none''
                      (writeStickyState ''inactive'' (s1a\<lparr>offscreen := False\<rparr>))
                  else
                    writeScrollDirection ''up'' (writeStickyState ''active'' s1a)
             else if stickyState s1 = Some ''active'' then
               scheduleHideTimeout (setAnimating (writeScrollDirection ''none'' s1))
             else
               writeStickyState ''idle'' (writeScrollDirection ''none'' s1))
          in s2\<lparr>lastScrollTop := scrollTop\<rparr>)"

subsection \<open>Attach and detach\<close>

text \<open>
  Modelled from the spec: the base class \<^verbatim>\<open>Component\<close> is imported from
  \<^verbatim>\<open>@theme/component\<close>, which is not among the sources. The spec describes it as
  providing the lookup of declared references and the lifecycle hooks; its
  \<^verbatim>\<open>connectedCallback\<close> and \<^verbatim>\<open>disconnectedCallback\<close> are taken to leave every field
  of the \<open>header\<close> record as it is.
\<close>

fun startsWith :: "string \<Rightarrow> string \<Rightarrow> bool" where
  "startsWith [] cs = True"
| "startsWith (p # ps) [] = False"
| "startsWith (p # ps) (c # cs) = (p = c \<and> startsWith ps cs)"

text \<open>\<^verbatim>\<open>/pat/.test(text)\<close> for a pattern without metacharacters.\<close>

fun containsText :: "string \<Rightarrow> string \<Rightarrow> bool" where
  "containsText pat [] = (pat = [])"
| "containsText pat (c # cs) = (startsWith pat (c # cs) \<or> containsText pat cs)"

definition detectIOSSafari :: "string \<Rightarrow> bool \<Rightarrow> bool" where
  "detectIOSSafari userAgent hasMSStream =
     (let isIOS = ((containsText ''iPhone'' userAgent \<or> containsText ''iPad'' userAgent
                    \<or> containsText ''iPod'' userAgent) \<and> \<not> hasMSStream)
      in isIOS \<and> containsText ''Safari'' userAgent
         \<and> \<not> (containsText ''CriOS'' userAgent \<or> containsText ''FxiOS'' userAgent))"

definition connectedCallback :: "string \<Rightarrow> bool \<Rightarrow> header \<Rightarrow> header" where
  "connectedCallback userAgent hasMSStream s =
     (let s1 = s\<lparr>resizeObserving := True, overflowListener := True,
                 isIOSSafari := detectIOSSafari userAgent hasMSStream\<rparr>
      in case sticky s1 of
           None \<Rightarrow> s1
         | Some stickyMode \<Rightarrow>
             if stickyMode = [] then s1
             else
               let s2 = observeStickyPosition (stickyMode = ''always'') s1
               in if stickyMode = ''scroll-up'' \<or> stickyMode = ''always''
                  then s2\<lparr>scrollListener := True\<rparr> else s2)"

definition disconnectObserver :: "intersection_observer option \<Rightarrow> intersection_observer option" where
  "disconnectObserver ob = (case ob of None \<Rightarrow> None | Some io \<Rightarrow> Some (io\<lparr>observing := False\<rparr>))"

definition disconnectedCallback :: "header \<Rightarrow> header" where
  "disconnectedCallback s =
     (let s1 = s\<lparr>resizeObserving := False,
                 intersectionObserver := disconnectObserver (intersectionObserver s),
                 overflowListener := False,
                 scrollListener := False\<rparr>;
          s2 = cancelPendingTimeout s1;
          s3 = (case safariIntersectionTimeout s2 of
                  None \<Rightarrow> s2
                | Some h \<Rightarrow> (cancelAnimationFrame h s2)\<lparr>safariIntersectionTimeout := None\<rparr>)
      in setHeaderHeight (Px 0) s3)"

subsection \<open>The element after construction, and the events it receives\<close>

text \<open>
  A freshly constructed element: the field initialisers of the class, with the
  \<^verbatim>\<open>sticky\<close> attribute and the \<^verbatim>\<open>data-sticky-state\<close> attribute as the page's markup
  gives them.
\<close>

definition newHeader :: "string option \<Rightarrow> string option \<Rightarrow> header" where
  "newHeader stickyAttr markupState =
     \<lparr>sticky = stickyAttr, stickyState = markupState, scrollDirection = None,
      animating = False, headerHeight = None, drawerDesktopHidden = True,
      menuHidden = False, menuDrawerHiddenWidth = None, intersectionObserver = None,
      offscreen = False, lastScrollTop = 0, timeout = None, isIOSSafari = False,
      safariIntersectionTimeout = None, resizeObserving = False,
      overflowListener = False, scrollListener = False, clock = 0, timers = [],
      frames = [], nextHandle = 1, effects = []\<rparr>"

datatype event =
    Connect string bool                    \<comment> \<open>user agent, \<^verbatim>\<open>window.MSStream\<close> is truthy\<close>
  | Disconnect
  | Resize "real list" int                 \<comment> \<open>entries, \<^verbatim>\<open>window.innerWidth\<close>\<close>
  | Intersect "intersection_entry list"
  | Scroll geometry
  | OverflowMinimum bool int               \<comment> \<open>\<^verbatim>\<open>detail.minimumReached\<close>, \<^verbatim>\<open>window.innerWidth\<close>\<close>
  | Tick nat                               \<comment> \<open>time passes\<close>
  | TimeoutFire                            \<comment> \<open>the browser runs a timeout that is due\<close>
  | Frame geometry                         \<comment> \<open>the browser runs a pending frame callback\<close>
  | SetAttribute "string option"           \<comment> \<open>the page rewrites the \<^verbatim>\<open>sticky\<close> attribute\<close>

text \<open>
  The browser delivers an event to a callback only while the callback is registered:
  an observer that was disconnected, a listener that was removed, a timeout that was
  cleared and a frame that was cancelled are never called.
\<close>

definition fireTimeout :: "header \<Rightarrow> header" where
  "fireTimeout s =
     (case find (\<lambda>t. snd t \<le> clock s) (timers s) of
        None \<Rightarrow> s
      | Some t \<Rightarrow> hideTimeoutCallback (s\<lparr>timers := remove1 t (timers s)\<rparr>))"

definition runFrame :: "geometry \<Rightarrow> header \<Rightarrow> header" where
  "runFrame g s =
     (case frames s of
        [] \<Rightarrow> s
      | h # rest \<Rightarrow> safariFrameCallback g (s\<lparr>frames := rest\<rparr>))"

fun step :: "event \<Rightarrow> header \<Rightarrow> header" where
  "step (Connect userAgent hasMSStream) s = connectedCallback userAgent hasMSStream s"
| "step Disconnect s = disconnectedCallback s"
| "step (Resize entries innerWidth) s =
     (if resizeObserving s then resizeCallback entries innerWidth s else s)"
| "step (Intersect entries) s =
     (case intersectionObserver s of
        None \<Rightarrow> s
      | Some io \<Rightarrow> if observing io then intersectionCallback entries (alwaysSticky io) s else s)"
| "step (Scroll g) s = (if scrollListener s then handleWindowScroll g s else s)"
| "step (OverflowMinimum minimumReached innerWidth) s =
     (if overflowListener s then handleOverflowMinimum minimumReached innerWidth s else s)"
| "step (Tick d) s = s\<lparr>clock := clock s + d\<rparr>"
| "step TimeoutFire s = fireTimeout s"
| "step (Frame g) s = runFrame g s"
| "step (SetAttribute a) s = s\<lparr>sticky := a\<rparr>"

fun run :: "event list \<Rightarrow> header \<Rightarrow> header" where
  "run [] s = s"
| "run (e # es) s = run es (step e s)"

subsection \<open>Reading the record of DOM writes\<close>

definition newEffects :: "header \<Rightarrow> header \<Rightarrow> effect list" where
  "newEffects s s' = drop (length (effects s)) (effects s')"

fun directionWrites :: "effect list \<Rightarrow> string list" where
  "directionWrites [] = []"
| "directionWrites (WriteScrollDirection v # es) = v # directionWrites es"
| "directionWrites (_ # es) = directionWrites es"

fun stateWrites :: "effect list \<Rightarrow> string list" where
  "stateWrites [] = []"
| "stateWrites (WriteStickyState v # es) = v # stateWrites es"
| "stateWrites (_ # es) = stateWrites es"

text \<open>Events that rewrite the \<^verbatim>\<open>sticky\<close> attribute from outside the component.\<close>

fun changesAttribute :: "event \<Rightarrow> bool" where
  "changesAttribute (SetAttribute a) = True"
| "changesAttribute _ = False"

text \<open>Events whose handler reads the \<^verbatim>\<open>sticky\<close> attribute.\<close>

fun readsAttribute :: "event \<Rightarrow> bool" where
  "readsAttribute (Connect userAgent hasMSStream) = True"
| "readsAttribute (Scroll g) = True"
| "readsAttribute _ = False"

text \<open>Attaching and detaching.\<close>

fun attaches :: "event \<Rightarrow> bool" where
  "attaches (Connect userAgent hasMSStream) = True"
| "attaches Disconnect = True"
| "attaches _ = False"

text \<open>
  The discipline of the two single-slot handles: at most one timeout is pending and it
  is the one \<^verbatim>\<open>#timeout\<close> names; a frame is pending exactly while
  \<^verbatim>\<open>#safariIntersectionTimeout\<close> is not null, and it is the one that field names; the
  browser never hands out the handle 0.
\<close>

definition wellFormed :: "header \<Rightarrow> bool" where
  "wellFormed s =
     (nextHandle s \<noteq> 0
      \<and> timeout s \<noteq> Some 0
      \<and> length (timers s) \<le> 1
      \<and> list_all (\<lambda>t. timeout s = Some (fst t)) (timers s)
      \<and> frames s = (case safariIntersectionTimeout s of None \<Rightarrow> [] | Some h \<Rightarrow> [h]))"

text \<open>
  The state the frame callback on iOS Safari is to derive from a bounding-box top and a
  page scroll offset, both in pixels.
\<close>

definition safariTarget :: "real \<Rightarrow> real \<Rightarrow> string" where
  "safariTarget t y = (if - 5 \<le> t \<and> y \<le> 5 then ''inactive'' else ''active'')"







text \<open>How often the inline menu was restored: the \<^verbatim>\<open>hidden\<close> class taken off the menu.\<close>

definition restorations :: "effect list \<Rightarrow> nat" where
  "restorations es = count_list es MenuRemoveHidden"

fun isResize :: "event \<Rightarrow> bool" where
  "isResize (Resize entries innerWidth) = True"
| "isResize _ = False"

text \<open>A resize callback with an entry, at which the viewport is wider than \<open>w\<close>.\<close>

fun widensPast :: "int \<Rightarrow> event \<Rightarrow> bool" where
  "widensPast w (Resize (height # _) innerWidth) = (innerWidth > w)"
| "widensPast w _ = False"





text \<open>
  A detached element: nothing is registered with the browser any more, and no timeout
  or frame is pending.
\<close>

definition detached :: "header \<Rightarrow> bool" where
  "detached s =
     (\<not> resizeObserving s \<and> \<not> overflowListener s \<and> \<not> scrollListener s
      \<and> (case intersectionObserver s of None \<Rightarrow> True | Some io \<Rightarrow> \<not> observing io)
      \<and> timers s = [] \<and> frames s = [])"

text \<open>
  What the component itself holds and shows: every field except the browser's clock and
  the \<^verbatim>\<open>sticky\<close> attribute, which the page owns. Two states agree on it when they are
  equal once the clock and the attribute are made equal.
\<close>

definition sameComponent :: "header \<Rightarrow> header \<Rightarrow> bool" where
  "sameComponent s s' = (s'\<lparr>clock := clock s, sticky := sticky s\<rparr> = s)"

fun isConnect :: "event \<Rightarrow> bool" where
  "isConnect (Connect userAgent hasMSStream) = True"
| "isConnect _ = False"

subsection \<open>Concrete pages used to exercise the theorems\<close>

definition desktopAgent :: string where
  "desktopAgent = ''Mozilla/5.0 (X11; Linux x86_64) Chrome/120.0 Safari/537.36''"

definition iPhoneAgent :: string where
  "iPhoneAgent = ''Mozilla/5.0 (iPhone; CPU iPhone OS 17_0 like Mac OS X) Version/17.0 Mobile/15E148 Safari/604.1''"

definition notIntersecting :: intersection_entry where
  "notIntersecting = \<lparr>isIntersecting = False, intersectionRatio = 0\<rparr>"

definition fullyIntersecting :: intersection_entry where
  "fullyIntersecting = \<lparr>isIntersecting = True, intersectionRatio = 1\<rparr>"

definition viewAt :: "real \<Rightarrow> real \<Rightarrow> geometry" where
  "viewAt y t = \<lparr>scrollingElementScrollTop = Some y, boundingTop = t\<rparr>"

text \<open>A \<^verbatim>\<open>scroll-up\<close> header that was attached and then left the viewport.\<close>

definition scrollUpOffscreen :: header where
  "scrollUpOffscreen =
     run [Connect desktopAgent False, Intersect [notIntersecting]]
       (newHeader (Some ''scroll-up'') (Some ''inactive''))"

text \<open>
  The same header a little later: it was shown again on an upward scroll and is now in
  the middle of its hide animation, the hide timeout pending.
\<close>

definition hidingEvents :: "event list" where
  "hidingEvents =
     [Connect desktopAgent False, Intersect [notIntersecting],
      Scroll (viewAt 500 (- 100)), Scroll (viewAt 300 (- 20)), Scroll (viewAt 400 (- 20))]"

definition hidingHeader :: header where
  "hidingHeader = run hidingEvents (newHeader (Some ''scroll-up'') (Some ''inactive''))"



text \<open>An \<^verbatim>\<open>always\<close> header attached on an iPhone, state \<^verbatim>\<open>inactive\<close> from the markup.\<close>

definition safariAlways :: header where
  "safariAlways = run [Connect iPhoneAgent False] (newHeader (Some ''always'') (Some ''inactive''))"


text \<open>A header whose menu ran out of room at a viewport width of 800.\<close>

definition narrowHeader :: header where
  "narrowHeader =
     run [Connect desktopAgent False, OverflowMinimum True 800] (newHeader None None)"

text \<open>
  The iPhone header after the page was scrolled to offset 400, the header fixed at the
  top of the viewport, and the frame ran: state \<^verbatim>\<open>active\<close>.
\<close>

definition safariScrolled :: header where
  "safariScrolled = run [Scroll (viewAt 400 0), Frame (viewAt 400 0)] safariAlways"

text \<open>
  The geometry during an overscroll bounce at the top of the page: the scroll offset is
  30 pixels below zero and the header 30 pixels below its natural position.
\<close>

definition overscrolled :: geometry where
  "overscrolled = viewAt (- 30) 30"

section \<open>Basic facts about the handlers\<close>

lemmas write_defs = writeStickyState_def writeScrollDirection_def setAnimating_def
  removeAnimating_def setHeaderHeight_def changeMetaThemeColor_def

lemmas sched_defs = requestSafariFrame_def scheduleHideTimeout_def

lemmas handler_defs = updateMenuVisibility_def handleOverflowMinimum_def resizeCallback_def
  handleIntersectionUpdate_def intersectionCallback_def observeStickyPosition_def
  safariFrameCallback_def hideTimeoutCallback_def connectedCallback_def
  disconnectedCallback_def disconnectObserver_def fireTimeout_def runFrame_def
  cancelAnimationFrame_def

lemmas page_defs = scrollUpOffscreen_def newHeader_def desktopAgent_def iPhoneAgent_def
  notIntersecting_def fullyIntersecting_def viewAt_def detectIOSSafari_def readScrollTop_def
  isAtTopWithThreshold_def animationDelay_def

lemma cancelPendingTimeout_fields [simp]:
  "effects (cancelPendingTimeout s) = effects s"
  "sticky (cancelPendingTimeout s) = sticky s"
  "stickyState (cancelPendingTimeout s) = stickyState s"
  "scrollDirection (cancelPendingTimeout s) = scrollDirection s"
  "animating (cancelPendingTimeout s) = animating s"
  "offscreen (cancelPendingTimeout s) = offscreen s"
  "lastScrollTop (cancelPendingTimeout s) = lastScrollTop s"
  "isIOSSafari (cancelPendingTimeout s) = isIOSSafari s"
  "safariIntersectionTimeout (cancelPendingTimeout s) = safariIntersectionTimeout s"
  "frames (cancelPendingTimeout s) = frames s"
  "clock (cancelPendingTimeout s) = clock s"
  "nextHandle (cancelPendingTimeout s) = nextHandle s"
  "headerHeight (cancelPendingTimeout s) = headerHeight s"
  "menuDrawerHiddenWidth (cancelPendingTimeout s) = menuDrawerHiddenWidth s"
  "menuHidden (cancelPendingTimeout s) = menuHidden s"
  "drawerDesktopHidden (cancelPendingTimeout s) = drawerDesktopHidden s"
  "intersectionObserver (cancelPendingTimeout s) = intersectionObserver s"
  "resizeObserving (cancelPendingTimeout s) = resizeObserving s"
  "overflowListener (cancelPendingTimeout s) = overflowListener s"
  "scrollListener (cancelPendingTimeout s) = scrollListener s"
  by (simp_all add: cancelPendingTimeout_def clearTimeout_def split: option.splits)

lemma scrollUpOffscreen_eval:
  "scrollUpOffscreen = (newHeader (Some ''scroll-up'') (Some ''inactive''))
     \<lparr>intersectionObserver := Some \<lparr>threshold = 0, alwaysSticky = False, observing = True\<rparr>,
      offscreen := True, resizeObserving := True, overflowListener := True,
      scrollListener := True\<rparr>"
  by (simp add: scrollUpOffscreen_def connectedCallback_def newHeader_def
        observeStickyPosition_def intersectionCallback_def handleIntersectionUpdate_def
        notIntersecting_def detectIOSSafari_def desktopAgent_def)

lemma directionWrites_append:
  "directionWrites (xs @ ys) = directionWrites xs @ directionWrites ys"
  by (induction xs rule: directionWrites.induct) simp_all


lemma newEffects_append:
  "effects s' = effects s @ xs \<Longrightarrow> newEffects s s' = xs"
  by (simp add: newEffects_def)

lemma newEffects_same [simp]: "newEffects s s = []"
  by (simp add: newEffects_def)

lemma appendsI:
  "effects s' = effects s @ xs \<Longrightarrow> effects s' = effects s @ newEffects s s'"
  by (simp add: newEffects_def)


subsection \<open>Every handler only appends to the record of DOM writes\<close>

lemma handleWindowScroll_appends:
  "effects (handleWindowScroll g s) = effects s @ newEffects s (handleWindowScroll g s)"
  by (simp add: newEffects_def handleWindowScroll_def Let_def write_defs sched_defs)

lemma resizeCallback_appends:
  "effects (resizeCallback es w s) = effects s @ newEffects s (resizeCallback es w s)"
  by (simp add: newEffects_def resizeCallback_def updateMenuVisibility_def setHeaderHeight_def
        Let_def split: list.splits)

lemma intersectionCallback_appends:
  "effects (intersectionCallback es a s) = effects s @ newEffects s (intersectionCallback es a s)"
  by (simp add: newEffects_def intersectionCallback_def handleIntersectionUpdate_def
        write_defs Let_def split: list.splits)

lemma handleOverflowMinimum_appends:
  "effects (handleOverflowMinimum m w s) = effects s @ newEffects s (handleOverflowMinimum m w s)"
  by (simp add: newEffects_def handleOverflowMinimum_def updateMenuVisibility_def)

lemma fireTimeout_appends:
  "effects (fireTimeout s) = effects s @ newEffects s (fireTimeout s)"
  by (simp add: newEffects_def fireTimeout_def hideTimeoutCallback_def write_defs
        split: option.splits)

lemma runFrame_appends:
  "effects (runFrame g s) = effects s @ newEffects s (runFrame g s)"
  by (simp add: newEffects_def runFrame_def safariFrameCallback_def write_defs Let_def
        split: list.splits)

lemma connectedCallback_effects:
  "effects (connectedCallback ua ms s) = effects s"
  by (simp add: connectedCallback_def observeStickyPosition_def Let_def split: option.splits)

lemma disconnectedCallback_effects:
  "effects (disconnectedCallback s) = effects s @ [SetHeaderHeight (Px 0)]"
  by (simp add: disconnectedCallback_def cancelAnimationFrame_def setHeaderHeight_def Let_def
        split: option.splits)

lemma step_appends:
  "effects (step e s) = effects s @ newEffects s (step e s)"
proof (cases e)
  case (Connect ua ms)
  then show ?thesis by (simp add: connectedCallback_effects newEffects_def)
next
  case Disconnect
  then show ?thesis by (simp add: disconnectedCallback_effects newEffects_def)
next
  case (Resize es w)
  then show ?thesis using resizeCallback_appends [of es w s] by simp
next
  case (Intersect es)
  then show ?thesis
    using intersectionCallback_appends [of es _ s] by (simp split: option.splits)
next
  case (Scroll g)
  then show ?thesis using handleWindowScroll_appends [of g s] by simp
next
  case (OverflowMinimum m w)
  then show ?thesis using handleOverflowMinimum_appends [of m w s] by simp
next
  case (Tick d)
  then show ?thesis by (simp add: newEffects_def)
next
  case TimeoutFire
  then show ?thesis using fireTimeout_appends [of s] by simp
next
  case (Frame g)
  then show ?thesis using runFrame_appends [of g s] by simp
next
  case (SetAttribute a)
  then show ?thesis by (simp add: newEffects_def)
qed


lemma run_appends:
  "effects (run es s) = effects s @ newEffects s (run es s)"
proof (induction es arbitrary: s)
  case Nil
  show ?case by simp
next
  case (Cons e es)
  have "effects (run es (step e s)) = effects (step e s) @ newEffects (step e s) (run es (step e s))"
    by (rule Cons.IH)
  also have "effects (step e s) = effects s @ newEffects s (step e s)"
    by (rule step_appends)
  finally have "effects (run es (step e s)) =
      effects s @ (newEffects s (step e s) @ newEffects (step e s) (run es (step e s)))"
    by simp
  then show ?case unfolding run.simps by (rule appendsI)
qed

lemma newEffects_run_Cons:
  "newEffects s (run es (step e s)) =
     newEffects s (step e s) @ newEffects (step e s) (run es (step e s))"
proof -
  have "effects (run es (step e s)) =
          effects s @ (newEffects s (step e s) @ newEffects (step e s) (run es (step e s)))"
    using run_appends [of es "step e s"] step_appends [of e s] by simp
  then show ?thesis by (rule newEffects_append)
qed

subsection \<open>Who writes the attribute\<close>

lemma handleWindowScroll_sticky: "sticky (handleWindowScroll g s) = sticky s"
  by (simp add: handleWindowScroll_def Let_def write_defs sched_defs)

lemma resizeCallback_sticky: "sticky (resizeCallback es w s) = sticky s"
  by (simp add: resizeCallback_def updateMenuVisibility_def setHeaderHeight_def
        Let_def split: list.splits)

lemma intersectionCallback_sticky: "sticky (intersectionCallback es a s) = sticky s"
  by (simp add: intersectionCallback_def handleIntersectionUpdate_def
        write_defs Let_def split: list.splits)

lemma fireTimeout_sticky: "sticky (fireTimeout s) = sticky s"
  by (simp add: fireTimeout_def hideTimeoutCallback_def write_defs split: option.splits)

lemma runFrame_sticky: "sticky (runFrame g s) = sticky s"
  by (simp add: runFrame_def safariFrameCallback_def write_defs Let_def split: list.splits)

lemma connectedCallback_sticky: "sticky (connectedCallback ua ms s) = sticky s"
  by (simp add: connectedCallback_def observeStickyPosition_def Let_def split: option.splits)

lemma disconnectedCallback_sticky: "sticky (disconnectedCallback s) = sticky s"
  by (simp add: disconnectedCallback_def cancelAnimationFrame_def setHeaderHeight_def Let_def
        split: option.splits)

lemma step_sticky: "\<not> changesAttribute e \<Longrightarrow> sticky (step e s) = sticky s"
  by (cases e)
     (simp_all add: handleWindowScroll_sticky resizeCallback_sticky
        intersectionCallback_sticky fireTimeout_sticky runFrame_sticky
        connectedCallback_sticky disconnectedCallback_sticky
        handleOverflowMinimum_def updateMenuVisibility_def split: option.splits)

subsection \<open>Direction writes\<close>

lemma handleWindowScroll_directions:
  "sticky s \<noteq> Some ''always'' \<Longrightarrow>
     set (directionWrites (newEffects s (handleWindowScroll g s))) \<subseteq> {''none'', ''up''}"
  by (simp add: newEffects_def handleWindowScroll_def Let_def write_defs sched_defs)

lemma resizeCallback_directions:
  "directionWrites (newEffects s (resizeCallback es w s)) = []"
  by (simp add: newEffects_def resizeCallback_def updateMenuVisibility_def setHeaderHeight_def
        Let_def split: list.splits)

lemma intersectionCallback_directions:
  "directionWrites (newEffects s (intersectionCallback es a s)) = []"
  by (simp add: newEffects_def intersectionCallback_def handleIntersectionUpdate_def
        write_defs Let_def split: list.splits)

lemma fireTimeout_directions: "directionWrites (newEffects s (fireTimeout s)) = []"
  by (simp add: newEffects_def fireTimeout_def hideTimeoutCallback_def write_defs
        split: option.splits)

lemma runFrame_directions: "directionWrites (newEffects s (runFrame g s)) = []"
  by (simp add: newEffects_def runFrame_def safariFrameCallback_def write_defs Let_def
        split: list.splits)

lemma step_directions:
  "sticky s \<noteq> Some ''always'' \<Longrightarrow>
     set (directionWrites (newEffects s (step e s))) \<subseteq> {''none'', ''up''}"
proof (cases e)
  case (Scroll g)
  assume "sticky s \<noteq> Some ''always''"
  from handleWindowScroll_directions [OF this, of g] Scroll show ?thesis
    by simp
next
  case (Connect ua ms)
  then show ?thesis by (simp add: newEffects_def connectedCallback_effects)
next
  case Disconnect
  then show ?thesis by (simp add: newEffects_def disconnectedCallback_effects)
next
  case (OverflowMinimum m w)
  then show ?thesis
    by (simp add: newEffects_def handleOverflowMinimum_def updateMenuVisibility_def)
qed (simp_all add: resizeCallback_directions intersectionCallback_directions
       fireTimeout_directions runFrame_directions newEffects_def [of s "s\<lparr>clock := _\<rparr>"]
       newEffects_def [of s "s\<lparr>sticky := _\<rparr>"] split: option.splits)

text \<open>
  C10. On the code path of \<^verbatim>\<open>scroll-up\<close> mode (the attribute is not \<^verbatim>\<open>always\<close>), whatever
  events arrive and however many, every value written to \<^verbatim>\<open>data-scroll-direction\<close> is
  \<^verbatim>\<open>none\<close> or \<^verbatim>\<open>up\<close>; a scroll handler that writes \<^verbatim>\<open>down\<close> ran in \<^verbatim>\<open>always\<close> mode.
\<close>

theorem scroll_up_never_writes_down:
  "(sticky s \<noteq> Some ''always'' \<and> (\<forall>e \<in> set es. \<not> changesAttribute e)
      \<longrightarrow> set (directionWrites (newEffects s (run es s))) \<subseteq> {''none'', ''up''})
   \<and> (''down'' \<in> set (directionWrites (newEffects s (handleWindowScroll g s)))
      \<longrightarrow> sticky s = Some ''always'')"
proof (intro conjI impI)
  assume "sticky s \<noteq> Some ''always'' \<and> (\<forall>e \<in> set es. \<not> changesAttribute e)"
  then show "set (directionWrites (newEffects s (run es s))) \<subseteq> {''none'', ''up''}"
  proof (induction es arbitrary: s)
    case Nil
    show ?case by (simp add: newEffects_def)
  next
    case (Cons e es)
    have keep: "sticky (step e s) \<noteq> Some ''always''"
      using Cons.prems by (simp add: step_sticky)
    have tl: "set (directionWrites (newEffects (step e s) (run es (step e s))))
                \<subseteq> {''none'', ''up''}"
      using Cons.IH [of "step e s"] keep Cons.prems by simp
    have hd: "set (directionWrites (newEffects s (step e s))) \<subseteq> {''none'', ''up''}"
      using Cons.prems by (simp add: step_directions)
    show ?case
      using hd tl by (simp add: newEffects_run_Cons directionWrites_append)
  qed
next
  assume down: "''down'' \<in> set (directionWrites (newEffects s (handleWindowScroll g s)))"
  show "sticky s = Some ''always''"
  proof (rule ccontr)
    assume "sticky s \<noteq> Some ''always''"
    from handleWindowScroll_directions [OF this, of g] down show False by auto
  qed
qed

theorem scroll_up_never_writes_down_witness:
  "sticky scrollUpOffscreen \<noteq> Some ''always''
   \<and> \<not> changesAttribute (Scroll (viewAt 500 (- 100)))
   \<and> \<not> changesAttribute (Scroll (viewAt 300 (- 20)))
   \<and> set (directionWrites (newEffects scrollUpOffscreen
        (run [Scroll (viewAt 500 (- 100)), Scroll (viewAt 300 (- 20))] scrollUpOffscreen)))
       \<subseteq> {''none'', ''up''}
   \<and> ''down'' \<in> set (directionWrites (newEffects (scrollUpOffscreen\<lparr>sticky := Some ''always''\<rparr>)
        (handleWindowScroll (viewAt 500 (- 100)) (scrollUpOffscreen\<lparr>sticky := Some ''always''\<rparr>))))
   \<and> sticky (scrollUpOffscreen\<lparr>sticky := Some ''always''\<rparr>) = Some ''always''"
proof -
  have a: "sticky scrollUpOffscreen \<noteq> Some ''always''"
    by (simp add: scrollUpOffscreen_eval newHeader_def)
  have b: "\<forall>e \<in> set [Scroll (viewAt 500 (- 100)), Scroll (viewAt 300 (- 20))]. \<not> changesAttribute e"
    by simp
  have c: "''down'' \<in> set (directionWrites (newEffects (scrollUpOffscreen\<lparr>sticky := Some ''always''\<rparr>)
        (handleWindowScroll (viewAt 500 (- 100)) (scrollUpOffscreen\<lparr>sticky := Some ''always''\<rparr>))))"
    by (simp add: scrollUpOffscreen_eval newHeader_def viewAt_def readScrollTop_def
          handleWindowScroll_def Let_def write_defs newEffects_def cancelPendingTimeout_def)
  have d: "set (directionWrites (newEffects scrollUpOffscreen
        (run [Scroll (viewAt 500 (- 100)), Scroll (viewAt 300 (- 20))] scrollUpOffscreen)))
       \<subseteq> {''none'', ''up''}"
    using a b by (rule mp [OF conjunct1 [OF scroll_up_never_writes_down], OF conjI])
  have e: "sticky (scrollUpOffscreen\<lparr>sticky := Some ''always''\<rparr>) = Some ''always''"
    using c by (rule mp [OF conjunct2 [OF scroll_up_never_writes_down]])
  from a d c e show ?thesis by simp
qed


lemma handleWindowScroll_reset:
  assumes "sticky s \<noteq> Some ''always''" and "offscreen s"
    and "readScrollTop g < lastScrollTop s" and "0 \<le> boundingTop g"
  shows "handleWindowScroll g s =
     (cancelPendingTimeout s)
       \<lparr>stickyState := Some ''inactive'', scrollDirection := Some ''none'',
        animating := False, offscreen := False, lastScrollTop := readScrollTop g,
        effects := effects s @ [RemoveAnimating, WriteStickyState ''inactive'',
                                 WriteScrollDirection ''none'']\<rparr>"
  using assms by (simp add: handleWindowScroll_def Let_def write_defs)

text \<open>
  C8, as amended. In \<^verbatim>\<open>scroll-up\<close> mode, a scroll event that the handler processes
  (\<open>offscreen\<close> is true), whose offset is below the last recorded one and at which the
  header's bounding-box top is at least 0, sets \<open>offscreen\<close> to false, the sticky state
  to \<^verbatim>\<open>inactive\<close> and the direction to \<^verbatim>\<open>none\<close>, whatever the state, the direction and
  the animating flag were before.
\<close>

theorem scroll_up_to_top_resets:
  assumes "sticky s \<noteq> Some ''always''" and "offscreen s"
    and "readScrollTop g < lastScrollTop s" and "0 \<le> boundingTop g"
  shows "offscreen (handleWindowScroll g s) = False
       \<and> stickyState (handleWindowScroll g s) = Some ''inactive''
       \<and> scrollDirection (handleWindowScroll g s) = Some ''none''"
  using assms by (simp add: handleWindowScroll_reset)

theorem scroll_up_to_top_resets_witness:
  "sticky (run [Scroll (viewAt 500 (- 100))] scrollUpOffscreen) \<noteq> Some ''always''
   \<and> offscreen (run [Scroll (viewAt 500 (- 100))] scrollUpOffscreen)
   \<and> readScrollTop (viewAt 0 0) < lastScrollTop (run [Scroll (viewAt 500 (- 100))] scrollUpOffscreen)
   \<and> 0 \<le> boundingTop (viewAt 0 0)
   \<and> stickyState (run [Scroll (viewAt 500 (- 100))] scrollUpOffscreen) = Some ''idle''
   \<and> offscreen (handleWindowScroll (viewAt 0 0)
        (run [Scroll (viewAt 500 (- 100))] scrollUpOffscreen)) = False
   \<and> stickyState (handleWindowScroll (viewAt 0 0)
        (run [Scroll (viewAt 500 (- 100))] scrollUpOffscreen)) = Some ''inactive''
   \<and> scrollDirection (handleWindowScroll (viewAt 0 0)
        (run [Scroll (viewAt 500 (- 100))] scrollUpOffscreen)) = Some ''none''"
proof -
  have s: "run [Scroll (viewAt 500 (- 100))] scrollUpOffscreen =
      scrollUpOffscreen\<lparr>stickyState := Some ''idle'', scrollDirection := Some ''none'',
        lastScrollTop := 500,
        effects := [WriteScrollDirection ''none'', WriteStickyState ''idle'']\<rparr>"
    by (simp add: scrollUpOffscreen_eval newHeader_def viewAt_def readScrollTop_def
          handleWindowScroll_def Let_def write_defs cancelPendingTimeout_def)
  have a: "sticky (run [Scroll (viewAt 500 (- 100))] scrollUpOffscreen) \<noteq> Some ''always''"
    and b: "offscreen (run [Scroll (viewAt 500 (- 100))] scrollUpOffscreen)"
    and c: "readScrollTop (viewAt 0 0)
              < lastScrollTop (run [Scroll (viewAt 500 (- 100))] scrollUpOffscreen)"
    and d: "0 \<le> boundingTop (viewAt 0 0)"
    and e: "stickyState (run [Scroll (viewAt 500 (- 100))] scrollUpOffscreen) = Some ''idle''"
    unfolding s
    by (simp_all add: scrollUpOffscreen_eval newHeader_def viewAt_def readScrollTop_def)
  from scroll_up_to_top_resets [OF a b c d] a b c d e show ?thesis by simp
qed

text \<open>
  The claim as stated fails when the handler does not process the event. The header
  goes offscreen and idle, an intersection update reports it intersecting again, which
  clears \<open>offscreen\<close>; the next scroll event has a smaller offset and a bounding-box top
  of 0, and the handler returns at its first line: the state stays \<^verbatim>\<open>idle\<close>.
\<close>

theorem scroll_up_to_top_counterexample:
  "sticky (run [Scroll (viewAt 500 (- 100)), Intersect [fullyIntersecting]] scrollUpOffscreen)
     = Some ''scroll-up''
   \<and> readScrollTop (viewAt 300 0)
       < lastScrollTop (run [Scroll (viewAt 500 (- 100)), Intersect [fullyIntersecting]]
            scrollUpOffscreen)
   \<and> 0 \<le> boundingTop (viewAt 300 0)
   \<and> stickyState (run [Scroll (viewAt 500 (- 100)), Intersect [fullyIntersecting],
        Scroll (viewAt 300 0)] scrollUpOffscreen) = Some ''idle''
   \<and> stickyState (run [Scroll (viewAt 500 (- 100)), Intersect [fullyIntersecting],
        Scroll (viewAt 300 0)] scrollUpOffscreen) \<noteq> Some ''inactive''"
  by (simp add: scrollUpOffscreen_eval newHeader_def viewAt_def readScrollTop_def
        fullyIntersecting_def intersectionCallback_def handleIntersectionUpdate_def
        handleWindowScroll_def Let_def write_defs cancelPendingTimeout_def)


subsection \<open>The two downward branches and the upward branch of scroll-up mode\<close>

lemma newEffects_trans:
  assumes "effects s1 = effects s @ newEffects s s1"
    and "effects s2 = effects s1 @ newEffects s1 s2"
  shows "newEffects s s2 = newEffects s s1 @ newEffects s1 s2"
proof -
  have "effects s2 = effects s @ (newEffects s s1 @ newEffects s1 s2)"
    using assms by simp
  then show ?thesis by (rule newEffects_append)
qed

lemma appends_trans:
  assumes "effects s1 = effects s @ newEffects s s1"
    and "effects s2 = effects s1 @ newEffects s1 s2"
  shows "effects s2 = effects s @ newEffects s s2"
proof -
  have "effects s2 = effects s @ (newEffects s s1 @ newEffects s1 s2)"
    using assms by simp
  then show ?thesis by (rule appendsI)
qed

lemma handleWindowScroll_down:
  assumes "sticky s \<noteq> Some ''always''" and "offscreen s"
    and "\<not> readScrollTop g < lastScrollTop s"
  shows "offscreen (handleWindowScroll g s)"
    and "lastScrollTop (handleWindowScroll g s) = readScrollTop g"
    and "directionWrites (newEffects s (handleWindowScroll g s)) = [''none'']"
  using assms
  by (simp_all add: handleWindowScroll_def Let_def write_defs sched_defs newEffects_def)

lemma handleWindowScroll_up_offscreen:
  assumes "sticky s \<noteq> Some ''always''" and "offscreen s"
    and "readScrollTop g < lastScrollTop s" and "boundingTop g < 0"
  shows "stickyState (handleWindowScroll g s) = Some ''active''"
    and "directionWrites (newEffects s (handleWindowScroll g s)) = [''up'']"
  using assms
  by (simp_all add: handleWindowScroll_def Let_def write_defs sched_defs newEffects_def)

lemma fireTimeout_fields:
  "offscreen (fireTimeout s) = offscreen s"
  "lastScrollTop (fireTimeout s) = lastScrollTop s"
  "isIOSSafari (fireTimeout s) = isIOSSafari s"
  by (simp_all add: fireTimeout_def hideTimeoutCallback_def write_defs split: option.splits)

text \<open>
  C2, as amended. With \<^verbatim>\<open>sticky="scroll-up"\<close>, \<open>offscreen\<close> true and
  \<open>lastScrollTop = 0\<close>, two scroll events at offsets 500 and 300, the header's
  bounding-box top negative at the second, write \<^verbatim>\<open>none\<close> and then \<^verbatim>\<open>up\<close> to
  \<^verbatim>\<open>data-scroll-direction\<close> and leave \<^verbatim>\<open>data-sticky-state\<close> at \<^verbatim>\<open>active\<close>; this also
  holds when the hide timeout fires between the two events.
\<close>


theorem down_then_up_scenario:
  assumes "sticky s = Some ''scroll-up''" and "offscreen s" and "lastScrollTop s = 0"
    and "readScrollTop g1 = 500" and "readScrollTop g2 = 300" and "boundingTop g2 < 0"
  shows "directionWrites (newEffects s (handleWindowScroll g2 (handleWindowScroll g1 s)))
           = [''none'', ''up'']
       \<and> stickyState (handleWindowScroll g2 (handleWindowScroll g1 s)) = Some ''active''
       \<and> directionWrites (newEffects s
            (handleWindowScroll g2 (step TimeoutFire (step (Tick d) (handleWindowScroll g1 s)))))
           = [''none'', ''up'']
       \<and> stickyState
            (handleWindowScroll g2 (step TimeoutFire (step (Tick d) (handleWindowScroll g1 s))))
           = Some ''active''"
proof -
  let ?s1 = "handleWindowScroll g1 s"
  let ?t = "step TimeoutFire (step (Tick d) ?s1)"
  have mode: "sticky s \<noteq> Some ''always''" using assms(1) by simp
  have down: "\<not> readScrollTop g1 < lastScrollTop s" using assms(3,4) by simp
  note first = handleWindowScroll_down [OF mode assms(2) down]
  have mode1: "sticky ?s1 \<noteq> Some ''always''"
    using mode by (simp add: handleWindowScroll_sticky)
  have up1: "readScrollTop g2 < lastScrollTop ?s1"
    using first(2) assms(4,5) by simp
  note second = handleWindowScroll_up_offscreen [OF mode1 first(1) up1 assms(6)]
  have w1: "directionWrites (newEffects s (handleWindowScroll g2 ?s1)) = [''none'', ''up'']"
    using newEffects_trans [OF handleWindowScroll_appends [of g1 s]
        handleWindowScroll_appends [of g2 ?s1]]
      first(3) second(2)
    by (simp add: directionWrites_append)
  have modet: "sticky ?t \<noteq> Some ''always''"
    using mode1 by (simp add: fireTimeout_sticky)
  have offt: "offscreen ?t"
    using first(1) by (simp add: fireTimeout_fields)
  have upt: "readScrollTop g2 < lastScrollTop ?t"
    using up1 by (simp add: fireTimeout_fields)
  note third = handleWindowScroll_up_offscreen [OF modet offt upt assms(6)]
  have s1t: "effects ?t = effects ?s1 @ newEffects ?s1 ?t"
    by (rule appends_trans [OF step_appends step_appends])
  have st: "effects ?t = effects s @ newEffects s ?t"
    by (rule appends_trans [OF handleWindowScroll_appends s1t])
  have mid: "directionWrites (newEffects s ?t) = [''none'']"
  proof -
    have "newEffects s ?t = newEffects s ?s1 @ newEffects ?s1 ?t"
      by (rule newEffects_trans [OF handleWindowScroll_appends s1t])
    moreover have "newEffects ?s1 ?t = newEffects (step (Tick d) ?s1) ?t"
      by (simp add: newEffects_def)
    moreover have "directionWrites (newEffects (step (Tick d) ?s1) ?t) = []"
      using fireTimeout_directions [of "step (Tick d) ?s1"] by simp
    ultimately show ?thesis using first(3) by (simp add: directionWrites_append)
  qed
  have w2: "directionWrites (newEffects s (handleWindowScroll g2 ?t)) = [''none'', ''up'']"
    using newEffects_trans [OF st handleWindowScroll_appends [of g2 ?t]] mid third(2)
    by (simp add: directionWrites_append)
  from w1 second(1) w2 third(1) show ?thesis by simp
qed

theorem down_then_up_scenario_witness:
  "sticky scrollUpOffscreen = Some ''scroll-up'' \<and> offscreen scrollUpOffscreen
   \<and> lastScrollTop scrollUpOffscreen = 0
   \<and> readScrollTop (viewAt 500 (- 100)) = 500 \<and> readScrollTop (viewAt 300 (- 20)) = 300
   \<and> boundingTop (viewAt 300 (- 20)) < 0
   \<and> directionWrites (newEffects scrollUpOffscreen
        (handleWindowScroll (viewAt 300 (- 20))
          (handleWindowScroll (viewAt 500 (- 100)) scrollUpOffscreen))) = [''none'', ''up'']
   \<and> stickyState (handleWindowScroll (viewAt 300 (- 20))
          (handleWindowScroll (viewAt 500 (- 100)) scrollUpOffscreen)) = Some ''active''"
proof -
  have a: "sticky scrollUpOffscreen = Some ''scroll-up''"
    and b: "offscreen scrollUpOffscreen"
    and c: "lastScrollTop scrollUpOffscreen = 0"
    by (simp_all add: scrollUpOffscreen_eval newHeader_def)
  have d: "readScrollTop (viewAt 500 (- 100)) = 500"
    and e: "readScrollTop (viewAt 300 (- 20)) = 300"
    and f: "boundingTop (viewAt 300 (- 20)) < 0"
    by (simp_all add: viewAt_def readScrollTop_def)
  from down_then_up_scenario [OF a b c d e f] a b c d e f show ?thesis by simp
qed

text \<open>
  The claim as stated expects \<^verbatim>\<open>down\<close> as the first write. On a header that was attached
  in \<^verbatim>\<open>scroll-up\<close> mode and left the viewport, the two events write \<^verbatim>\<open>none\<close> and \<^verbatim>\<open>up\<close>.
\<close>

theorem down_then_up_counterexample:
  "sticky scrollUpOffscreen = Some ''scroll-up'' \<and> offscreen scrollUpOffscreen
   \<and> lastScrollTop scrollUpOffscreen = 0
   \<and> directionWrites (newEffects scrollUpOffscreen
        (run [Scroll (viewAt 500 (- 100)), Scroll (viewAt 300 (- 20))] scrollUpOffscreen))
      = [''none'', ''up'']
   \<and> directionWrites (newEffects scrollUpOffscreen
        (run [Scroll (viewAt 500 (- 100)), Scroll (viewAt 300 (- 20))] scrollUpOffscreen))
      \<noteq> [''down'', ''up'']"
  by (simp add: scrollUpOffscreen_eval newHeader_def viewAt_def readScrollTop_def
        handleWindowScroll_def Let_def write_defs cancelPendingTimeout_def newEffects_def)


subsection \<open>Where \<^verbatim>\<open>idle\<close> is written and where the hide timeout is scheduled\<close>

lemma resizeCallback_states: "stateWrites (newEffects s (resizeCallback es w s)) = []"
  by (simp add: newEffects_def resizeCallback_def updateMenuVisibility_def setHeaderHeight_def
        Let_def split: list.splits)

lemma intersectionCallback_states:
  "set (stateWrites (newEffects s (intersectionCallback es a s))) \<subseteq> {''inactive'', ''active''}"
  by (simp add: newEffects_def intersectionCallback_def handleIntersectionUpdate_def
        write_defs Let_def split: list.splits)

lemma runFrame_states:
  "set (stateWrites (newEffects s (runFrame g s))) \<subseteq> {''inactive'', ''active''}"
  by (simp add: newEffects_def runFrame_def safariFrameCallback_def write_defs Let_def
        split: list.splits)

lemma fireTimeout_states:
  "v \<in> set (stateWrites (newEffects s (fireTimeout s))) \<Longrightarrow>
     \<exists>t \<in> set (timers s). snd t \<le> clock s"
  by (auto simp add: newEffects_def fireTimeout_def hideTimeoutCallback_def write_defs
        find_Some_iff split: option.splits)

lemma handleWindowScroll_idle:
  "''idle'' \<in> set (stateWrites (newEffects s (handleWindowScroll g s))) \<Longrightarrow>
     offscreen s \<and> sticky s \<noteq> Some ''always'' \<and> \<not> readScrollTop g < lastScrollTop s
     \<and> stickyState s \<noteq> Some ''active''"
  by (simp add: newEffects_def handleWindowScroll_def Let_def write_defs sched_defs
        split: if_splits)

lemma cancelPendingTimeout_timers:
  "set (timers (cancelPendingTimeout s)) \<subseteq> set (timers s)"
  by (auto simp add: cancelPendingTimeout_def clearTimeout_def split: option.splits)

lemma handleWindowScroll_timers:
  assumes "t \<in> set (timers (handleWindowScroll g s))" and "t \<notin> set (timers s)"
  shows "offscreen s \<and> sticky s \<noteq> Some ''always'' \<and> \<not> readScrollTop g < lastScrollTop s
     \<and> stickyState s = Some ''active'' \<and> t = (nextHandle s, clock s + animationDelay)"
  using assms cancelPendingTimeout_timers [of s]
  by (auto simp add: handleWindowScroll_def Let_def write_defs sched_defs split: if_splits)

lemma other_handlers_timers:
  "timers (resizeCallback es w s) = timers s"
  "timers (intersectionCallback ies a s) = timers s"
  "timers (handleOverflowMinimum m w s) = timers s"
  "timers (runFrame g s) = timers s"
  "timers (connectedCallback ua ms s) = timers s"
  by (simp_all add: resizeCallback_def updateMenuVisibility_def setHeaderHeight_def
        intersectionCallback_def handleIntersectionUpdate_def handleOverflowMinimum_def
        runFrame_def safariFrameCallback_def connectedCallback_def observeStickyPosition_def
        write_defs Let_def split: list.splits option.splits)

lemma fireTimeout_timers: "set (timers (fireTimeout s)) \<subseteq> set (timers s)"
  by (simp add: fireTimeout_def hideTimeoutCallback_def write_defs set_remove1_subset
        split: option.splits)

lemma disconnectedCallback_timers: "set (timers (disconnectedCallback s)) \<subseteq> set (timers s)"
proof -
  have "set (timers (cancelPendingTimeout (s\<lparr>resizeObserving := False,
          intersectionObserver := disconnectObserver (intersectionObserver s),
          overflowListener := False, scrollListener := False\<rparr>))) \<subseteq> set (timers s)"
    using cancelPendingTimeout_timers [of "s\<lparr>resizeObserving := False,
          intersectionObserver := disconnectObserver (intersectionObserver s),
          overflowListener := False, scrollListener := False\<rparr>"]
    by simp
  then show ?thesis
    by (simp add: disconnectedCallback_def cancelAnimationFrame_def setHeaderHeight_def Let_def
          split: option.splits)
qed

text \<open>
  C1, as amended. \<^verbatim>\<open>idle\<close> is written in two ways only, both on the scroll handler's path
  for a mode other than \<^verbatim>\<open>always\<close>: by the hide timeout when it fires, and directly by
  the scroll handler when it processes an event that does not scroll up while the state
  is not \<^verbatim>\<open>active\<close>. The hide timeout is scheduled only by the scroll handler, 150 ms
  ahead, when it processes such an event while the state is \<^verbatim>\<open>active\<close>. No resize,
  intersection, overflow, frame, attach or detach handler writes \<^verbatim>\<open>idle\<close>.
\<close>

theorem idle_written_only_on_scroll_up_path:
  "(''idle'' \<in> set (stateWrites (newEffects s (step e s))) \<longrightarrow>
      (e = TimeoutFire \<and> (\<exists>t \<in> set (timers s). snd t \<le> clock s))
      \<or> (\<exists>g. e = Scroll g \<and> scrollListener s \<and> offscreen s \<and> sticky s \<noteq> Some ''always''
            \<and> \<not> readScrollTop g < lastScrollTop s \<and> stickyState s \<noteq> Some ''active''))
   \<and> (\<forall>t. t \<in> set (timers (step e s)) \<and> t \<notin> set (timers s) \<longrightarrow>
        (\<exists>g. e = Scroll g \<and> scrollListener s \<and> offscreen s \<and> sticky s \<noteq> Some ''always''
            \<and> \<not> readScrollTop g < lastScrollTop s \<and> stickyState s = Some ''active''
            \<and> t = (nextHandle s, clock s + animationDelay)))"
proof (intro conjI impI allI)
  assume idle: "''idle'' \<in> set (stateWrites (newEffects s (step e s)))"
  show "(e = TimeoutFire \<and> (\<exists>t \<in> set (timers s). snd t \<le> clock s))
      \<or> (\<exists>g. e = Scroll g \<and> scrollListener s \<and> offscreen s \<and> sticky s \<noteq> Some ''always''
            \<and> \<not> readScrollTop g < lastScrollTop s \<and> stickyState s \<noteq> Some ''active'')"
  proof (cases e)
    case (Connect ua ms)
    with idle show ?thesis by (simp add: newEffects_def connectedCallback_effects)
  next
    case Disconnect
    with idle show ?thesis by (simp add: newEffects_def disconnectedCallback_effects)
  next
    case (Resize es w)
    with idle show ?thesis by (simp add: resizeCallback_states split: if_splits)
  next
    case (Intersect es)
    with idle intersectionCallback_states [of s es] show ?thesis
      by (auto split: option.splits if_splits)
  next
    case (Scroll g)
    with idle handleWindowScroll_idle [of s g] show ?thesis
      by (simp split: if_splits)
  next
    case (OverflowMinimum m w)
    with idle show ?thesis
      by (simp add: newEffects_def handleOverflowMinimum_def updateMenuVisibility_def
            split: if_splits)
  next
    case (Tick d)
    with idle show ?thesis by (simp add: newEffects_def)
  next
    case TimeoutFire
    with idle fireTimeout_states [of "''idle''" s] show ?thesis by simp
  next
    case (Frame g)
    with idle runFrame_states [of s g] show ?thesis by auto
  next
    case (SetAttribute a)
    with idle show ?thesis by (simp add: newEffects_def)
  qed
next
  fix t
  assume new: "t \<in> set (timers (step e s)) \<and> t \<notin> set (timers s)"
  show "\<exists>g. e = Scroll g \<and> scrollListener s \<and> offscreen s \<and> sticky s \<noteq> Some ''always''
            \<and> \<not> readScrollTop g < lastScrollTop s \<and> stickyState s = Some ''active''
            \<and> t = (nextHandle s, clock s + animationDelay)"
  proof (cases e)
    case (Scroll g)
    with new handleWindowScroll_timers [of t g s] show ?thesis
      by (simp split: if_splits)
  next
    case Disconnect
    with new disconnectedCallback_timers [of s] show ?thesis by auto
  next
    case TimeoutFire
    with new fireTimeout_timers [of s] show ?thesis by auto
  qed (use new in \<open>simp_all add: other_handlers_timers split: option.splits if_splits\<close>)
qed

theorem idle_written_only_on_scroll_up_path_witness:
  "''idle'' \<in> set (stateWrites (newEffects scrollUpOffscreen
       (step (Scroll (viewAt 500 (- 100))) scrollUpOffscreen)))
   \<and> Scroll (viewAt 500 (- 100)) \<noteq> TimeoutFire
   \<and> (\<exists>g. Scroll (viewAt 500 (- 100)) = Scroll g \<and> scrollListener scrollUpOffscreen
         \<and> offscreen scrollUpOffscreen \<and> sticky scrollUpOffscreen \<noteq> Some ''always''
         \<and> \<not> readScrollTop g < lastScrollTop scrollUpOffscreen
         \<and> stickyState scrollUpOffscreen \<noteq> Some ''active'')"
proof -
  have a: "''idle'' \<in> set (stateWrites (newEffects scrollUpOffscreen
       (step (Scroll (viewAt 500 (- 100))) scrollUpOffscreen)))"
    by (simp add: scrollUpOffscreen_eval newHeader_def viewAt_def readScrollTop_def
          handleWindowScroll_def Let_def write_defs cancelPendingTimeout_def newEffects_def)
  from a idle_written_only_on_scroll_up_path [of scrollUpOffscreen "Scroll (viewAt 500 (- 100))"]
  show ?thesis by simp
qed

text \<open>
  The claim as stated fails on a reachable state: the header was attached in
  \<^verbatim>\<open>scroll-up\<close> mode with state \<^verbatim>\<open>inactive\<close> and left the viewport; no timeout is pending,
  and the first downward scroll event writes \<^verbatim>\<open>idle\<close> at once.
\<close>

theorem idle_only_from_active_counterexample:
  "stickyState scrollUpOffscreen = Some ''inactive''
   \<and> timers scrollUpOffscreen = []
   \<and> stickyState (step (Scroll (viewAt 500 (- 100))) scrollUpOffscreen) = Some ''idle''
   \<and> timers (step (Scroll (viewAt 500 (- 100))) scrollUpOffscreen) = []"
  by (simp add: scrollUpOffscreen_eval newHeader_def viewAt_def readScrollTop_def
        handleWindowScroll_def Let_def write_defs cancelPendingTimeout_def)


subsection \<open>Handlers that never read the attribute\<close>

lemma cancelPendingTimeout_sticky_update:
  "cancelPendingTimeout (s\<lparr>sticky := a\<rparr>) = (cancelPendingTimeout s)\<lparr>sticky := a\<rparr>"
  by (simp add: cancelPendingTimeout_def clearTimeout_def split: option.splits)

lemma resizeCallback_sticky_update:
  "resizeCallback es w (s\<lparr>sticky := a\<rparr>) = (resizeCallback es w s)\<lparr>sticky := a\<rparr>"
  by (simp add: resizeCallback_def updateMenuVisibility_def setHeaderHeight_def Let_def
        split: list.splits)

lemma intersectionCallback_sticky_update:
  "intersectionCallback es al (s\<lparr>sticky := a\<rparr>) = (intersectionCallback es al s)\<lparr>sticky := a\<rparr>"
  by (simp add: intersectionCallback_def handleIntersectionUpdate_def write_defs Let_def
        split: list.splits)

lemma handleOverflowMinimum_sticky_update:
  "handleOverflowMinimum m w (s\<lparr>sticky := a\<rparr>) = (handleOverflowMinimum m w s)\<lparr>sticky := a\<rparr>"
  by (simp add: handleOverflowMinimum_def updateMenuVisibility_def)

lemma fireTimeout_sticky_update:
  "fireTimeout (s\<lparr>sticky := a\<rparr>) = (fireTimeout s)\<lparr>sticky := a\<rparr>"
  by (simp add: fireTimeout_def hideTimeoutCallback_def write_defs split: option.splits)

lemma runFrame_sticky_update:
  "runFrame g (s\<lparr>sticky := a\<rparr>) = (runFrame g s)\<lparr>sticky := a\<rparr>"
  by (simp add: runFrame_def safariFrameCallback_def write_defs Let_def split: list.splits)

lemma disconnectedCallback_sticky_update:
  "disconnectedCallback (s\<lparr>sticky := a\<rparr>) = (disconnectedCallback s)\<lparr>sticky := a\<rparr>"
  by (simp add: disconnectedCallback_def cancelPendingTimeout_def clearTimeout_def
        cancelAnimationFrame_def setHeaderHeight_def Let_def split: option.splits)

lemma handleWindowScroll_registration:
  "intersectionObserver (handleWindowScroll g s) = intersectionObserver s"
  "scrollListener (handleWindowScroll g s) = scrollListener s"
  by (simp_all add: handleWindowScroll_def Let_def write_defs sched_defs)

lemma other_handlers_registration:
  "intersectionObserver (resizeCallback es w s) = intersectionObserver s"
  "scrollListener (resizeCallback es w s) = scrollListener s"
  "intersectionObserver (intersectionCallback ies al s) = intersectionObserver s"
  "scrollListener (intersectionCallback ies al s) = scrollListener s"
  "intersectionObserver (handleOverflowMinimum m w s) = intersectionObserver s"
  "scrollListener (handleOverflowMinimum m w s) = scrollListener s"
  "intersectionObserver (fireTimeout s) = intersectionObserver s"
  "scrollListener (fireTimeout s) = scrollListener s"
  "intersectionObserver (runFrame g s) = intersectionObserver s"
  "scrollListener (runFrame g s) = scrollListener s"
  by (simp_all add: resizeCallback_def updateMenuVisibility_def setHeaderHeight_def
        intersectionCallback_def handleIntersectionUpdate_def handleOverflowMinimum_def
        fireTimeout_def hideTimeoutCallback_def runFrame_def safariFrameCallback_def
        write_defs Let_def split: list.splits option.splits)

text \<open>
  C6, as amended. The \<^verbatim>\<open>sticky\<close> attribute is read when the element is attached and
  again by the scroll handler at every scroll event. No other handler reads it: for an
  event that is neither an attach nor a scroll event (nor the rewrite of the attribute
  itself), two runs that differ only in the attribute's value behave identically. What
  was set up from the attribute at attach time, the intersection observer with its
  threshold and its \<^verbatim>\<open>alwaysSticky\<close> flag and the registration of the scroll listener,
  is changed by no event other than an attach or a detach.
\<close>

theorem attribute_read_at_attach_and_on_scroll:
  "(\<not> readsAttribute e \<and> \<not> changesAttribute e \<longrightarrow>
       step e (s\<lparr>sticky := a\<rparr>) = (step e s)\<lparr>sticky := a\<rparr>)
   \<and> (\<not> attaches e \<longrightarrow>
       intersectionObserver (step e s) = intersectionObserver s
       \<and> scrollListener (step e s) = scrollListener s)"
proof -
  have same: "step e (s\<lparr>sticky := a\<rparr>) = (step e s)\<lparr>sticky := a\<rparr>"
    if "\<not> readsAttribute e \<and> \<not> changesAttribute e"
    using that
    by (cases e)
       (simp_all add: resizeCallback_sticky_update intersectionCallback_sticky_update
          handleOverflowMinimum_sticky_update fireTimeout_sticky_update
          runFrame_sticky_update disconnectedCallback_sticky_update split: option.splits)
  have fixed: "intersectionObserver (step e s) = intersectionObserver s
       \<and> scrollListener (step e s) = scrollListener s"
    if "\<not> attaches e"
    using that
    by (cases e)
       (simp_all add: handleWindowScroll_registration other_handlers_registration
          split: option.splits)
  from same fixed show ?thesis by blast
qed

theorem attribute_read_at_attach_and_on_scroll_witness:
  "\<not> readsAttribute (Intersect [fullyIntersecting])
   \<and> \<not> changesAttribute (Intersect [fullyIntersecting])
   \<and> \<not> attaches (Intersect [fullyIntersecting])
   \<and> step (Intersect [fullyIntersecting]) (scrollUpOffscreen\<lparr>sticky := Some ''always''\<rparr>)
       = (step (Intersect [fullyIntersecting]) scrollUpOffscreen)\<lparr>sticky := Some ''always''\<rparr>
   \<and> offscreen (step (Intersect [fullyIntersecting])
        (scrollUpOffscreen\<lparr>sticky := Some ''always''\<rparr>)) = False
   \<and> scrollListener (step (Intersect [fullyIntersecting]) scrollUpOffscreen)
       = scrollListener scrollUpOffscreen"
proof -
  have "offscreen (step (Intersect [fullyIntersecting]) scrollUpOffscreen) = False"
    by (simp add: scrollUpOffscreen_eval newHeader_def fullyIntersecting_def
          intersectionCallback_def handleIntersectionUpdate_def)
  with attribute_read_at_attach_and_on_scroll
         [where e = "Intersect [fullyIntersecting]" and s = scrollUpOffscreen
            and a = "Some ''always''"]
  show ?thesis by simp
qed

text \<open>
  The claim as stated fails: two runs from the same attached header, which differ only
  in a rewrite of the attribute after the attach, treat the same scroll event
  differently, because the scroll handler reads the attribute again.
\<close>

theorem attribute_read_once_counterexample:
  "scrollDirection (run [Scroll (viewAt 500 (- 100))] scrollUpOffscreen) = Some ''none''
   \<and> stickyState (run [Scroll (viewAt 500 (- 100))] scrollUpOffscreen) = Some ''idle''
   \<and> scrollDirection (run [SetAttribute (Some ''always''), Scroll (viewAt 500 (- 100))]
        scrollUpOffscreen) = Some ''down''
   \<and> stickyState (run [SetAttribute (Some ''always''), Scroll (viewAt 500 (- 100))]
        scrollUpOffscreen) = Some ''inactive''"
  by (simp add: scrollUpOffscreen_eval newHeader_def viewAt_def readScrollTop_def
        handleWindowScroll_def Let_def write_defs cancelPendingTimeout_def)


subsection \<open>The single-slot discipline holds in every reachable state\<close>

lemma wellFormed_newHeader: "wellFormed (newHeader a m)"
  by (simp add: wellFormed_def newHeader_def)

lemma short_list: "length xs \<le> 1 \<Longrightarrow> xs = [] \<or> (\<exists>x. xs = [x])"
  by (cases xs) auto

lemma wellFormedD:
  assumes "wellFormed s"
  shows "nextHandle s \<noteq> 0" and "timeout s \<noteq> Some 0"
    and "timers s = [] \<or> (\<exists>h d. timers s = [(h, d)] \<and> timeout s = Some h)"
    and "frames s = [] \<or> (\<exists>h. frames s = [h] \<and> safariIntersectionTimeout s = Some h)"
proof -
  show "nextHandle s \<noteq> 0" and "timeout s \<noteq> Some 0"
    using assms by (simp_all add: wellFormed_def)
  have "length (timers s) \<le> 1" using assms by (simp add: wellFormed_def)
  then have "timers s = [] \<or> (\<exists>t. timers s = [t])" by (rule short_list)
  moreover have "list_all (\<lambda>t. timeout s = Some (fst t)) (timers s)"
    using assms by (simp add: wellFormed_def)
  ultimately show "timers s = [] \<or> (\<exists>h d. timers s = [(h, d)] \<and> timeout s = Some h)"
    by auto
  have "frames s = (case safariIntersectionTimeout s of None \<Rightarrow> [] | Some h \<Rightarrow> [h])"
    using assms by (simp add: wellFormed_def)
  then show "frames s = [] \<or> (\<exists>h. frames s = [h] \<and> safariIntersectionTimeout s = Some h)"
    by (simp split: option.splits)
qed

lemma wellFormed_frames:
  "wellFormed s \<Longrightarrow>
     frames s = (case safariIntersectionTimeout s of None \<Rightarrow> [] | Some h \<Rightarrow> [h])"
  by (simp add: wellFormed_def)

lemma wellFormed_cong:
  assumes "nextHandle s' = nextHandle s" and "timeout s' = timeout s"
    and "timers s' = timers s" and "frames s' = frames s"
    and "safariIntersectionTimeout s' = safariIntersectionTimeout s"
  shows "wellFormed s' = wellFormed s"
  using assms by (simp add: wellFormed_def)

lemma wellFormed_cancelPendingTimeout:
  assumes "wellFormed s"
  shows "timers (cancelPendingTimeout s) = []" and "timeout (cancelPendingTimeout s) = None"
  using wellFormedD(2,3) [OF assms]
  by (auto simp add: cancelPendingTimeout_def clearTimeout_def split: option.splits)

lemma wellFormed_handleWindowScroll:
  assumes "wellFormed s"
  shows "wellFormed (handleWindowScroll g s)"
proof (cases "\<not> offscreen s \<and> sticky s \<noteq> Some ''always''")
  case True
  then show ?thesis using assms by (simp add: handleWindowScroll_def)
next
  case False
  note c = wellFormed_cancelPendingTimeout [OF assms]
  note n = wellFormedD(1) [OF assms]
  note f = wellFormed_frames [OF assms]
  show ?thesis
  proof (cases "sticky s = Some ''always''")
    case True
    then show ?thesis
      using c n f
      by (auto simp add: handleWindowScroll_def Let_def write_defs sched_defs wellFormed_def)
  next
    case notAlways: False
    then show ?thesis
      using False c n f
      by (auto simp add: handleWindowScroll_def Let_def write_defs sched_defs wellFormed_def)
  qed
qed

lemma wellFormed_resizeCallback: "wellFormed (resizeCallback es w s) = wellFormed s"
  by (rule wellFormed_cong)
     (simp_all add: resizeCallback_def updateMenuVisibility_def setHeaderHeight_def
        Let_def split: list.splits)

lemma wellFormed_intersectionCallback:
  "wellFormed (intersectionCallback es al s) = wellFormed s"
  by (rule wellFormed_cong)
     (simp_all add: intersectionCallback_def handleIntersectionUpdate_def write_defs
        Let_def split: list.splits)

lemma wellFormed_handleOverflowMinimum:
  "wellFormed (handleOverflowMinimum m w s) = wellFormed s"
  by (rule wellFormed_cong) (simp_all add: handleOverflowMinimum_def updateMenuVisibility_def)

lemma wellFormed_connectedCallback:
  "wellFormed (connectedCallback ua ms s) = wellFormed s"
  by (rule wellFormed_cong)
     (simp_all add: connectedCallback_def observeStickyPosition_def Let_def
        split: option.splits)

lemma wellFormed_fireTimeout:
  assumes "wellFormed s"
  shows "wellFormed (fireTimeout s)"
  using wellFormedD(1,2,3) [OF assms] wellFormed_frames [OF assms]
  by (auto simp add: wellFormed_def fireTimeout_def hideTimeoutCallback_def write_defs
        split: option.splits if_splits)

lemma wellFormed_runFrame:
  assumes "wellFormed s"
  shows "wellFormed (runFrame g s)"
  using wellFormedD [OF assms] assms
  by (auto simp add: wellFormed_def runFrame_def safariFrameCallback_def write_defs Let_def
        split: list.splits)

lemma disconnectedCallback_handles:
  assumes "wellFormed s"
  shows "timers (disconnectedCallback s) = []" and "frames (disconnectedCallback s) = []"
    and "timeout (disconnectedCallback s) = None"
    and "safariIntersectionTimeout (disconnectedCallback s) = None"
    and "nextHandle (disconnectedCallback s) = nextHandle s"
proof -
  let ?s1 = "s\<lparr>resizeObserving := False,
                intersectionObserver := disconnectObserver (intersectionObserver s),
                overflowListener := False, scrollListener := False\<rparr>"
  have "wellFormed ?s1 = wellFormed s" by (rule wellFormed_cong) simp_all
  then have wf1: "wellFormed ?s1" using assms by simp
  note c = wellFormed_cancelPendingTimeout [OF wf1]
  note f = wellFormedD(4) [OF assms]
  show "timers (disconnectedCallback s) = []"
    using c by (simp add: disconnectedCallback_def cancelAnimationFrame_def setHeaderHeight_def
          Let_def split: option.splits)
  show "timeout (disconnectedCallback s) = None"
    using c by (simp add: disconnectedCallback_def cancelAnimationFrame_def setHeaderHeight_def
          Let_def split: option.splits)
  show "frames (disconnectedCallback s) = []"
    using f by (auto simp add: disconnectedCallback_def cancelAnimationFrame_def
          setHeaderHeight_def Let_def split: option.splits)
  show "safariIntersectionTimeout (disconnectedCallback s) = None"
    by (simp add: disconnectedCallback_def cancelAnimationFrame_def setHeaderHeight_def
          Let_def split: option.splits)
  show "nextHandle (disconnectedCallback s) = nextHandle s"
    by (simp add: disconnectedCallback_def cancelAnimationFrame_def setHeaderHeight_def
          Let_def split: option.splits)
qed

lemma wellFormed_disconnectedCallback:
  assumes "wellFormed s"
  shows "wellFormed (disconnectedCallback s)"
  using disconnectedCallback_handles [OF assms] wellFormedD(1) [OF assms]
  by (simp add: wellFormed_def)

lemma wellFormed_step: "wellFormed s \<Longrightarrow> wellFormed (step e s)"
proof (cases e)
  case (Tick d)
  assume "wellFormed s"
  with Tick show ?thesis by (simp add: wellFormed_def)
next
  case (SetAttribute a)
  assume "wellFormed s"
  with SetAttribute show ?thesis by (simp add: wellFormed_def)
qed (simp_all add: wellFormed_handleWindowScroll wellFormed_resizeCallback
       wellFormed_intersectionCallback wellFormed_handleOverflowMinimum
       wellFormed_fireTimeout wellFormed_runFrame wellFormed_connectedCallback
       wellFormed_disconnectedCallback split: option.splits)

lemma wellFormed_run: "wellFormed s \<Longrightarrow> wellFormed (run es s)"
  by (induction es arbitrary: s) (simp_all add: wellFormed_step)

lemma wellFormed_reachable: "wellFormed (run es (newHeader a m))"
  by (rule wellFormed_run [OF wellFormed_newHeader])


subsection \<open>After detach\<close>

lemma disconnectedCallback_registrations:
  "resizeObserving (disconnectedCallback s) = False"
  "overflowListener (disconnectedCallback s) = False"
  "scrollListener (disconnectedCallback s) = False"
  "intersectionObserver (disconnectedCallback s) = disconnectObserver (intersectionObserver s)"
  "headerHeight (disconnectedCallback s) = Some (Px 0)"
  by (simp_all add: disconnectedCallback_def cancelAnimationFrame_def setHeaderHeight_def
        Let_def split: option.splits)

lemma detached_disconnectedCallback:
  assumes "wellFormed s"
  shows "detached (disconnectedCallback s)"
  using disconnectedCallback_handles(1,2) [OF assms]
  by (simp add: detached_def disconnectedCallback_registrations disconnectObserver_def
        split: option.splits)

lemma detached_step_unchanged:
  assumes "detached s" and "\<not> attaches e"
  shows "(step e s)\<lparr>clock := clock s, sticky := sticky s\<rparr> = s"
proof (cases e)
  case (Intersect ies)
  then show ?thesis using assms(1) by (simp add: detached_def split: option.splits)
next
  case TimeoutFire
  then show ?thesis using assms(1) by (simp add: detached_def fireTimeout_def)
next
  case (Frame g)
  then show ?thesis using assms(1) by (simp add: detached_def runFrame_def)
qed (use assms in \<open>simp_all add: detached_def\<close>)

lemma detached_step:
  assumes "detached s" and "\<not> attaches e"
  shows "detached (step e s)" and "(step e s)\<lparr>clock := clock s, sticky := sticky s\<rparr> = s"
proof -
  show same: "(step e s)\<lparr>clock := clock s, sticky := sticky s\<rparr> = s"
    by (rule detached_step_unchanged [OF assms])
  have "detached ((step e s)\<lparr>clock := clock s, sticky := sticky s\<rparr>)"
    using assms(1) by (simp only: same)
  then show "detached (step e s)" by (simp add: detached_def)
qed

lemma detached_run:
  assumes "detached s" and "\<forall>e \<in> set evs. \<not> attaches e"
  shows "detached (run evs s) \<and> (run evs s)\<lparr>clock := clock s, sticky := sticky s\<rparr> = s"
  using assms
proof (induction evs arbitrary: s)
  case Nil
  then show ?case by simp
next
  case (Cons e evs)
  have e: "\<not> attaches e" using Cons.prems(2) by simp
  note one = detached_step [OF Cons.prems(1) e]
  have rest: "detached (run evs (step e s))
      \<and> (run evs (step e s))\<lparr>clock := clock (step e s), sticky := sticky (step e s)\<rparr> = step e s"
    using Cons.IH [OF one(1)] Cons.prems(2) by simp
  have "(run evs (step e s))\<lparr>clock := clock s, sticky := sticky s\<rparr>
      = ((run evs (step e s))\<lparr>clock := clock (step e s), sticky := sticky (step e s)\<rparr>)
          \<lparr>clock := clock s, sticky := sticky s\<rparr>"
    by simp
  also have "\<dots> = (step e s)\<lparr>clock := clock s, sticky := sticky s\<rparr>"
    using rest by simp
  also have "\<dots> = s" by (rule one(2))
  finally show ?case using rest by simp
qed

text \<open>
  C9. After \<^verbatim>\<open>disconnectedCallback\<close> has run in any reachable state, the published
  \<^verbatim>\<open>--header-height\<close> is \<^verbatim>\<open>0px\<close>, both observers are disconnected, the scroll listener
  and the overflow listener are removed, both handle fields are null and neither a
  timeout nor a frame is pending; whatever events arrive afterwards, short of a new
  attach, every field of the component keeps its value.
\<close>

theorem detach_tears_down:
  assumes "d = disconnectedCallback (run es (newHeader a m))"
  shows "headerHeight d = Some (Px 0)
       \<and> \<not> resizeObserving d
       \<and> (case intersectionObserver d of None \<Rightarrow> True | Some io \<Rightarrow> \<not> observing io)
       \<and> \<not> scrollListener d \<and> \<not> overflowListener d
       \<and> timeout d = None \<and> safariIntersectionTimeout d = None
       \<and> timers d = [] \<and> frames d = []
       \<and> (\<forall>evs. (\<forall>e \<in> set evs. \<not> attaches e) \<longrightarrow> sameComponent d (run evs d))"
proof -
  have wf: "wellFormed (run es (newHeader a m))" by (rule wellFormed_reachable)
  note h = disconnectedCallback_handles [OF wf, folded assms]
  have det: "detached d" unfolding assms by (rule detached_disconnectedCallback [OF wf])
  have later: "sameComponent d (run evs d)" if "\<forall>e \<in> set evs. \<not> attaches e" for evs
    using detached_run [OF det that] by (simp add: sameComponent_def)
  have regs: "headerHeight d = Some (Px 0)" "\<not> resizeObserving d" "\<not> scrollListener d"
    "\<not> overflowListener d"
    unfolding assms by (simp_all add: disconnectedCallback_registrations)
  have ob: "case intersectionObserver d of None \<Rightarrow> True | Some io \<Rightarrow> \<not> observing io"
    using det by (simp add: detached_def)
  from regs ob h(1-4) later show ?thesis by blast
qed


lemma hidingHeader_eval:
  "hidingHeader = scrollUpOffscreen
     \<lparr>stickyState := Some ''active'', scrollDirection := Some ''none'', animating := True,
      lastScrollTop := 400, timeout := Some (Suc 0), timers := [(Suc 0, 150)],
      nextHandle := Suc (Suc 0),
      effects := [WriteScrollDirection ''none'', WriteStickyState ''idle'', RemoveAnimating,
        WriteStickyState ''active'', WriteScrollDirection ''up'',
        WriteScrollDirection ''none'', SetAnimating]\<rparr>"
proof -
  have "hidingHeader = run [Scroll (viewAt 500 (- 100)), Scroll (viewAt 300 (- 20)),
      Scroll (viewAt 400 (- 20))] scrollUpOffscreen"
    by (simp add: hidingHeader_def hidingEvents_def scrollUpOffscreen_def)
  then show ?thesis
    by (simp add: scrollUpOffscreen_eval newHeader_def viewAt_def readScrollTop_def
          handleWindowScroll_def Let_def write_defs sched_defs cancelPendingTimeout_def
          animationDelay_def)
qed

theorem detach_tears_down_witness:
  "timers hidingHeader = [(1, 150)]
   \<and> headerHeight (disconnectedCallback hidingHeader) = Some (Px 0)
   \<and> timers (disconnectedCallback hidingHeader) = []
   \<and> timeout (disconnectedCallback hidingHeader) = None
   \<and> \<not> scrollListener (disconnectedCallback hidingHeader)
   \<and> \<not> attaches (Tick 200) \<and> \<not> attaches TimeoutFire \<and> \<not> attaches (Scroll (viewAt 0 0))
   \<and> \<not> attaches (Intersect [fullyIntersecting]) \<and> \<not> attaches (Resize [80] 1024)
   \<and> sameComponent (disconnectedCallback hidingHeader)
        (run [Tick 200, TimeoutFire, Scroll (viewAt 0 0), Intersect [fullyIntersecting],
              Resize [80] 1024] (disconnectedCallback hidingHeader))"
proof -
  have t: "timers hidingHeader = [(1, 150)]"
    by (simp add: hidingHeader_eval)
  have d: "disconnectedCallback hidingHeader =
      disconnectedCallback (run hidingEvents (newHeader (Some ''scroll-up'') (Some ''inactive'')))"
    by (simp add: hidingHeader_def)
  note all = detach_tears_down [OF d]
  have later: "(\<forall>e \<in> set evs. \<not> attaches e) \<longrightarrow>
      sameComponent (disconnectedCallback hidingHeader) (run evs (disconnectedCallback hidingHeader))"
    for evs
    using all by blast
  have same: "sameComponent (disconnectedCallback hidingHeader)
        (run [Tick 200, TimeoutFire, Scroll (viewAt 0 0), Intersect [fullyIntersecting],
              Resize [80] 1024] (disconnectedCallback hidingHeader))"
    by (rule later [THEN mp]) simp
  have fields: "headerHeight (disconnectedCallback hidingHeader) = Some (Px 0)"
    "timers (disconnectedCallback hidingHeader) = []"
    "timeout (disconnectedCallback hidingHeader) = None"
    "\<not> scrollListener (disconnectedCallback hidingHeader)"
    using all by blast+
  from t fields same show ?thesis by simp
qed


subsection \<open>The hide animation\<close>

















subsection \<open>The iOS Safari path of \<^verbatim>\<open>always\<close> mode\<close>

lemma handleWindowScroll_safari:
  assumes "wellFormed s" and "isIOSSafari s" and "sticky s = Some ''always''"
  shows "stickyState (handleWindowScroll g s) = stickyState s"
    and "stateWrites (newEffects s (handleWindowScroll g s)) = []"
    and "ChangeMetaThemeColor \<notin> set (newEffects s (handleWindowScroll g s))"
    and "safariIntersectionTimeout s = None \<Longrightarrow>
           frames (handleWindowScroll g s) = [nextHandle s]
           \<and> safariIntersectionTimeout (handleWindowScroll g s) = Some (nextHandle s)"
    and "safariIntersectionTimeout s \<noteq> None \<Longrightarrow>
           frames (handleWindowScroll g s) = frames s
           \<and> safariIntersectionTimeout (handleWindowScroll g s) = safariIntersectionTimeout s"
    and "\<exists>h. frames (handleWindowScroll g s) = [h]"
  using assms(2,3) wellFormed_frames [OF assms(1)]
  by (auto simp add: handleWindowScroll_def Let_def write_defs sched_defs newEffects_def
        split: option.splits)

lemma safariFrameCallback_result:
  "stickyState (safariFrameCallback g x)
     = Some (safariTarget (boundingTop g)
               (case scrollingElementScrollTop g of None \<Rightarrow> 0 | Some v \<Rightarrow> v))"
  "safariIntersectionTimeout (safariFrameCallback g x) = None"
  "frames (safariFrameCallback g x) = frames x"
  "newEffects x (safariFrameCallback g x) =
     (if stickyState x = Some (safariTarget (boundingTop g)
               (case scrollingElementScrollTop g of None \<Rightarrow> 0 | Some v \<Rightarrow> v)) then []
      else [WriteStickyState (safariTarget (boundingTop g)
               (case scrollingElementScrollTop g of None \<Rightarrow> 0 | Some v \<Rightarrow> v)),
            ChangeMetaThemeColor])"
  by (simp_all add: safariFrameCallback_def safariTarget_def isAtTopWithThreshold_def
        readScrollTop_def write_defs newEffects_def Let_def)

text \<open>
  C5, as amended. In \<^verbatim>\<open>always\<close> mode on iOS Safari, in any reachable state: an
  intersection update changes nothing. A scroll event writes neither the sticky state
  nor the theme colour; it requests an animation frame unless one is already pending, so
  that exactly one frame is pending afterwards. When that frame runs, it reads the
  header's bounding-box top \<open>t\<close> and the page scroll offset \<open>y\<close> again (0 when the
  document has no scrolling element) and derives \<^verbatim>\<open>inactive\<close> exactly when \<open>t\<close> is at
  least -5 and \<open>y\<close> is at most 5, else \<^verbatim>\<open>active\<close>: both tests are one-sided. It writes
  that state, followed by the theme-colour update, only if it differs from the current
  state, and clears the frame handle.
\<close>

theorem ios_safari_state_follows_scroll:
  assumes "s = run es (newHeader a m)" and "isIOSSafari s" and "sticky s = Some ''always''"
    and "s1 = handleWindowScroll g s"
    and "s2 = step (Frame \<lparr>scrollingElementScrollTop = Some y, boundingTop = t\<rparr>) s1"
    and "s3 = step (Frame \<lparr>scrollingElementScrollTop = None, boundingTop = t\<rparr>) s1"
  shows "intersectionCallback entries True s = s
       \<and> stickyState s1 = stickyState s
       \<and> stateWrites (newEffects s s1) = []
       \<and> ChangeMetaThemeColor \<notin> set (newEffects s s1)
       \<and> frames s1 = (if safariIntersectionTimeout s = None then [nextHandle s] else frames s)
       \<and> length (frames s1) = 1
       \<and> stickyState s2 = Some (if - 5 \<le> t \<and> y \<le> 5 then ''inactive'' else ''active'')
       \<and> newEffects s1 s2
          = (if stickyState s = Some (safariTarget t y) then []
             else [WriteStickyState (safariTarget t y), ChangeMetaThemeColor])
       \<and> frames s2 = [] \<and> safariIntersectionTimeout s2 = None
       \<and> stickyState s3 = Some (if - 5 \<le> t then ''inactive'' else ''active'')"
proof -
  let ?g = "\<lparr>scrollingElementScrollTop = Some y, boundingTop = t\<rparr>"
  let ?n = "\<lparr>scrollingElementScrollTop = None, boundingTop = t\<rparr>"
  have wf: "wellFormed s" unfolding assms(1) by (rule wellFormed_reachable)
  note h = handleWindowScroll_safari [OF wf assms(2,3), of g, folded assms(4)]
  have i: "intersectionCallback entries True s = s"
    using assms(2)
    by (simp add: intersectionCallback_def handleIntersectionUpdate_def split: list.splits)
  obtain f where f: "frames s1 = [f]" using h(6) by blast
  have fr: "frames s1 = (if safariIntersectionTimeout s = None then [nextHandle s] else frames s)"
    using h(4,5) by simp
  have s2: "s2 = safariFrameCallback ?g (s1\<lparr>frames := []\<rparr>)"
    using assms(5) f by (simp add: runFrame_def)
  have s3: "s3 = safariFrameCallback ?n (s1\<lparr>frames := []\<rparr>)"
    using assms(6) f by (simp add: runFrame_def)
  have st: "stickyState s2 = Some (safariTarget t y)"
    and cl: "safariIntersectionTimeout s2 = None"
    and f2: "frames s2 = []"
    unfolding s2 by (simp_all add: safariFrameCallback_result)
  have ne: "newEffects s1 s2 = (if stickyState s = Some (safariTarget t y) then []
             else [WriteStickyState (safariTarget t y), ChangeMetaThemeColor])"
  proof -
    have "newEffects s1 s2 = newEffects (s1\<lparr>frames := []\<rparr>) s2"
      by (simp add: newEffects_def)
    also have "\<dots> = (if stickyState (s1\<lparr>frames := []\<rparr>) = Some (safariTarget t y) then []
             else [WriteStickyState (safariTarget t y), ChangeMetaThemeColor])"
      unfolding s2 using safariFrameCallback_result(4) [of "s1\<lparr>frames := []\<rparr>" ?g]
      by simp
    finally show ?thesis using h(1) by simp
  qed
  have len: "length (frames s1) = 1" using f by simp
  have st': "stickyState s2 = Some (if - 5 \<le> t \<and> y \<le> 5 then ''inactive'' else ''active'')"
    using st by (simp add: safariTarget_def)
  have st3: "stickyState s3 = Some (if - 5 \<le> t then ''inactive'' else ''active'')"
    unfolding s3 by (simp add: safariFrameCallback_result safariTarget_def)
  from i h(1,2,3) fr len st' ne f2 cl st3 show ?thesis by blast
qed

lemma safariAlways_eval:
  "safariAlways = (newHeader (Some ''always'') (Some ''inactive''))
     \<lparr>intersectionObserver := Some \<lparr>threshold = 95 / 100, alwaysSticky = True, observing = True\<rparr>,
      isIOSSafari := True, resizeObserving := True, overflowListener := True,
      scrollListener := True\<rparr>"
  by (simp add: safariAlways_def connectedCallback_def newHeader_def observeStickyPosition_def
        detectIOSSafari_def iPhoneAgent_def)

theorem ios_safari_state_follows_scroll_witness:
  "isIOSSafari safariAlways \<and> sticky safariAlways = Some ''always''
   \<and> stickyState safariAlways = Some ''inactive''
   \<and> intersectionCallback [notIntersecting] True safariAlways = safariAlways
   \<and> stickyState (handleWindowScroll (viewAt 400 0) safariAlways) = Some ''inactive''
   \<and> frames (handleWindowScroll (viewAt 400 0) safariAlways) = [1]
   \<and> stickyState (step (Frame \<lparr>scrollingElementScrollTop = Some 400, boundingTop = 0\<rparr>)
        (handleWindowScroll (viewAt 400 0) safariAlways)) = Some ''active''
   \<and> newEffects (handleWindowScroll (viewAt 400 0) safariAlways)
        (step (Frame \<lparr>scrollingElementScrollTop = Some 400, boundingTop = 0\<rparr>)
          (handleWindowScroll (viewAt 400 0) safariAlways))
      = [WriteStickyState ''active'', ChangeMetaThemeColor]
   \<and> stickyState (step (Frame \<lparr>scrollingElementScrollTop = None, boundingTop = 0\<rparr>)
        (handleWindowScroll (viewAt 400 0) safariAlways)) = Some ''inactive''"
proof -
  have r: "safariAlways = run [Connect iPhoneAgent False]
      (newHeader (Some ''always'') (Some ''inactive''))"
    by (simp add: safariAlways_def)
  have a: "isIOSSafari safariAlways" and b: "sticky safariAlways = Some ''always''"
    and c: "safariIntersectionTimeout safariAlways = None" "nextHandle safariAlways = 1"
      "stickyState safariAlways = Some ''inactive''"
    by (simp_all add: safariAlways_eval newHeader_def)
  have t: "safariTarget 0 400 = ''active''"
    by (simp add: safariTarget_def)
  note all = ios_safari_state_follows_scroll [OF r a b refl refl refl,
      where entries = "[notIntersecting]" and g = "viewAt 400 0" and y = 400 and t = 0]
  from all a b c t show ?thesis by simp
qed

lemma safariScrolled_eval:
  "safariScrolled = safariAlways
     \<lparr>stickyState := Some ''active'', scrollDirection := Some ''none'', lastScrollTop := 400,
      nextHandle := Suc (Suc 0),
      effects := [WriteScrollDirection ''none'', WriteStickyState ''active'',
                  ChangeMetaThemeColor]\<rparr>"
  by (simp add: safariScrolled_def safariAlways_eval newHeader_def viewAt_def readScrollTop_def
        handleWindowScroll_def Let_def write_defs sched_defs cancelPendingTimeout_def
        runFrame_def safariFrameCallback_def isAtTopWithThreshold_def)

text \<open>
  The claim as stated reads "within 5px" on both quantities. During an overscroll bounce
  at the top of the page the header is 30 pixels below its natural position and the
  scroll offset 30 pixels below zero, neither within 5 pixels, and the frame that
  follows the scroll event still writes \<^verbatim>\<open>inactive\<close> over \<^verbatim>\<open>active\<close>.
\<close>

theorem ios_safari_within_5px_counterexample:
  "isIOSSafari safariScrolled \<and> sticky safariScrolled = Some ''always''
   \<and> stickyState safariScrolled = Some ''active''
   \<and> boundingTop overscrolled = 30 \<and> scrollingElementScrollTop overscrolled = Some (- 30)
   \<and> \<not> \<bar>30 :: real\<bar> \<le> 5 \<and> \<not> \<bar>- 30 :: real\<bar> \<le> 5
   \<and> stickyState (run [Scroll overscrolled, Frame overscrolled] safariScrolled)
       = Some ''inactive''
   \<and> newEffects (run [Scroll overscrolled] safariScrolled)
        (run [Scroll overscrolled, Frame overscrolled] safariScrolled)
       = [WriteStickyState ''inactive'', ChangeMetaThemeColor]"
  by (simp add: safariScrolled_eval safariAlways_eval newHeader_def overscrolled_def viewAt_def
        readScrollTop_def handleWindowScroll_def Let_def write_defs sched_defs
        cancelPendingTimeout_def runFrame_def safariFrameCallback_def
        isAtTopWithThreshold_def newEffects_def)


subsection \<open>Intersection updates in \<^verbatim>\<open>always\<close> mode\<close>











subsection \<open>Menu and drawer\<close>

lemma restorations_append:
  "restorations (xs @ ys) = restorations xs + restorations ys"
  by (simp add: restorations_def)

lemma resize_while_hidden:
  assumes "menuDrawerHiddenWidth x = Some w" and "w \<noteq> 0" and "resizeObserving x"
    and "isResize e"
  shows "resizeObserving (step e x)"
    and "widensPast w e \<Longrightarrow>
           menuDrawerHiddenWidth (step e x) = None \<and> \<not> menuHidden (step e x)
           \<and> drawerDesktopHidden (step e x) \<and> restorations (newEffects x (step e x)) = 1"
    and "\<not> widensPast w e \<Longrightarrow>
           menuDrawerHiddenWidth (step e x) = Some w
           \<and> restorations (newEffects x (step e x)) = 0"
proof -
  obtain entries iw where e: "e = Resize entries iw"
    using assms(4) by (cases e) simp_all
  show "resizeObserving (step e x)"
    using assms(3) unfolding e
    by (simp add: resizeCallback_def updateMenuVisibility_def setHeaderHeight_def Let_def
          split: list.splits)
  show "menuDrawerHiddenWidth (step e x) = None \<and> \<not> menuHidden (step e x)
           \<and> drawerDesktopHidden (step e x) \<and> restorations (newEffects x (step e x)) = 1"
    if "widensPast w e"
    using that assms(1,2,3) unfolding e
    by (cases entries)
       (simp_all add: resizeCallback_def updateMenuVisibility_def setHeaderHeight_def Let_def
          newEffects_def restorations_def)
  show "menuDrawerHiddenWidth (step e x) = Some w
           \<and> restorations (newEffects x (step e x)) = 0"
    if "\<not> widensPast w e"
    using that assms(1,2,3) unfolding e
    by (cases entries)
       (simp_all add: resizeCallback_def updateMenuVisibility_def setHeaderHeight_def Let_def
          newEffects_def restorations_def)
qed

lemma resize_while_shown:
  assumes "menuDrawerHiddenWidth x = None" and "isResize e"
  shows "menuDrawerHiddenWidth (step e x) = None"
    and "menuHidden (step e x) = menuHidden x"
    and "drawerDesktopHidden (step e x) = drawerDesktopHidden x"
    and "restorations (newEffects x (step e x)) = 0"
proof -
  obtain entries iw where e: "e = Resize entries iw"
    using assms(2) by (cases e) simp_all
  show "menuDrawerHiddenWidth (step e x) = None"
    and "menuHidden (step e x) = menuHidden x"
    and "drawerDesktopHidden (step e x) = drawerDesktopHidden x"
    and "restorations (newEffects x (step e x)) = 0"
    using assms(1) unfolding e
    by (simp_all add: resizeCallback_def setHeaderHeight_def Let_def newEffects_def
          restorations_def split: list.splits)
qed

lemma restorations_run_Cons:
  "restorations (newEffects x (run evs (step e x)))
     = restorations (newEffects x (step e x))
       + restorations (newEffects (step e x) (run evs (step e x)))"
  by (simp add: newEffects_run_Cons restorations_append)

lemma resize_run_shown:
  assumes "menuDrawerHiddenWidth x = None" and "\<forall>e \<in> set evs. isResize e"
  shows "menuDrawerHiddenWidth (run evs x) = None
       \<and> menuHidden (run evs x) = menuHidden x
       \<and> drawerDesktopHidden (run evs x) = drawerDesktopHidden x
       \<and> restorations (newEffects x (run evs x)) = 0"
  using assms
proof (induction evs arbitrary: x)
  case Nil
  then show ?case by (simp add: restorations_def)
next
  case (Cons e evs)
  have e: "isResize e" using Cons.prems(2) by simp
  note one = resize_while_shown [OF Cons.prems(1) e]
  have rest: "menuDrawerHiddenWidth (run evs (step e x)) = None
       \<and> menuHidden (run evs (step e x)) = menuHidden (step e x)
       \<and> drawerDesktopHidden (run evs (step e x)) = drawerDesktopHidden (step e x)
       \<and> restorations (newEffects (step e x) (run evs (step e x))) = 0"
    using Cons.IH [OF one(1)] Cons.prems(2) by simp
  show ?case
    using one rest by (simp add: restorations_run_Cons)
qed

lemma resize_run_hidden:
  assumes "menuDrawerHiddenWidth x = Some w" and "w \<noteq> 0" and "resizeObserving x"
    and "\<forall>e \<in> set evs. isResize e"
  shows "restorations (newEffects x (run evs x))
           = (if \<exists>e \<in> set evs. widensPast w e then 1 else 0)
       \<and> menuDrawerHiddenWidth (run evs x)
           = (if \<exists>e \<in> set evs. widensPast w e then None else Some w)
       \<and> ((\<exists>e \<in> set evs. widensPast w e) \<longrightarrow>
             \<not> menuHidden (run evs x) \<and> drawerDesktopHidden (run evs x))"
  using assms
proof (induction evs arbitrary: x)
  case Nil
  then show ?case by (simp add: restorations_def)
next
  case (Cons e evs)
  have e: "isResize e" and es: "\<forall>e \<in> set evs. isResize e"
    using Cons.prems(4) by simp_all
  note one = resize_while_hidden [OF Cons.prems(1,2,3) e]
  show ?case
  proof (cases "widensPast w e")
    case True
    note now = one(2) [OF True]
    have shown: "menuDrawerHiddenWidth (step e x) = None" using now by simp
    note rest = resize_run_shown [OF shown es]
    show ?thesis
      using True now rest by (simp add: restorations_run_Cons)
  next
    case False
    note now = one(3) [OF False]
    have hidden: "menuDrawerHiddenWidth (step e x) = Some w" using now by simp
    note rest = Cons.IH [OF hidden Cons.prems(2) one(1) es]
    show ?thesis
      using False now rest by (simp add: restorations_run_Cons)
  qed
qed

lemma handleWindowScroll_menu:
  "menuDrawerHiddenWidth (handleWindowScroll g x) = menuDrawerHiddenWidth x"
  by (simp add: handleWindowScroll_def Let_def write_defs sched_defs)

lemma other_handlers_menu:
  "menuDrawerHiddenWidth (intersectionCallback ies al x) = menuDrawerHiddenWidth x"
  "menuDrawerHiddenWidth (fireTimeout x) = menuDrawerHiddenWidth x"
  "menuDrawerHiddenWidth (runFrame g x) = menuDrawerHiddenWidth x"
  "menuDrawerHiddenWidth (connectedCallback ua ms x) = menuDrawerHiddenWidth x"
  "menuDrawerHiddenWidth (disconnectedCallback x) = menuDrawerHiddenWidth x"
  by (simp_all add: intersectionCallback_def handleIntersectionUpdate_def fireTimeout_def
        hideTimeoutCallback_def runFrame_def safariFrameCallback_def connectedCallback_def
        observeStickyPosition_def disconnectedCallback_def cancelAnimationFrame_def
        write_defs Let_def split: list.splits option.splits)

lemma hidden_width_changes:
  assumes "menuDrawerHiddenWidth x = Some w" and "menuDrawerHiddenWidth (step e x) \<noteq> Some w"
  shows "widensPast w e \<or> (\<exists>m iw. e = OverflowMinimum m iw)"
proof (cases e)
  case (Resize entries iw)
  show ?thesis
  proof (cases entries)
    case Nil
    then show ?thesis using assms Resize by (simp add: resizeCallback_def split: if_splits)
  next
    case (Cons height rest)
    then show ?thesis
      using assms Resize
      by (simp add: resizeCallback_def updateMenuVisibility_def setHeaderHeight_def Let_def
            split: if_splits)
  qed
next
  case (OverflowMinimum m iw)
  then show ?thesis by simp
qed (use assms in \<open>simp_all add: handleWindowScroll_menu other_handlers_menu
       split: option.splits if_splits\<close>)

text \<open>
  C3, as amended. Let \<^verbatim>\<open>#menuDrawerHiddenWidth\<close> hold a non-zero width \<open>w\<close>. Over any
  sequence of resize callbacks, the field is cleared (null, the inline menu shown, the
  drawer hidden) exactly when one of the callbacks has an entry and sees a viewport wider
  than \<open>w\<close>, and the inline menu is restored exactly once in that case and never
  otherwise. The only other event that changes the field is an \<^verbatim>\<open>overflowMinimum\<close>
  event.
\<close>

theorem menu_restored_once_on_widening:
  assumes "menuDrawerHiddenWidth s = Some w" and "w \<noteq> 0" and "resizeObserving s"
    and "\<forall>e \<in> set evs. isResize e"
  shows "restorations (newEffects s (run evs s))
           = (if \<exists>e \<in> set evs. widensPast w e then 1 else 0)
       \<and> menuDrawerHiddenWidth (run evs s)
           = (if \<exists>e \<in> set evs. widensPast w e then None else Some w)
       \<and> ((\<exists>e \<in> set evs. widensPast w e) \<longrightarrow>
             \<not> menuHidden (run evs s) \<and> drawerDesktopHidden (run evs s))
       \<and> (menuDrawerHiddenWidth (step e s) \<noteq> Some w \<longrightarrow>
             widensPast w e \<or> (\<exists>m iw. e = OverflowMinimum m iw))"
proof -
  note a = resize_run_hidden [OF assms]
  have b: "widensPast w e \<or> (\<exists>m iw. e = OverflowMinimum m iw)"
    if "menuDrawerHiddenWidth (step e s) \<noteq> Some w"
    using assms(1) that by (rule hidden_width_changes)
  from a b show ?thesis by blast
qed

lemma narrowHeader_eval:
  "narrowHeader = (newHeader None None)
     \<lparr>drawerDesktopHidden := False, menuHidden := True, menuDrawerHiddenWidth := Some 800,
      resizeObserving := True, overflowListener := True,
      effects := [DrawerRemoveDesktopHidden, MenuAddHidden]\<rparr>"
  by (simp add: narrowHeader_def connectedCallback_def newHeader_def
        handleOverflowMinimum_def updateMenuVisibility_def detectIOSSafari_def desktopAgent_def)

theorem menu_restored_once_on_widening_witness:
  "menuDrawerHiddenWidth narrowHeader = Some 800 \<and> resizeObserving narrowHeader
   \<and> isResize (Resize [64] 780) \<and> isResize (Resize [64] 1024) \<and> isResize (Resize [64] 1200)
   \<and> \<not> widensPast 800 (Resize [64] 780) \<and> widensPast 800 (Resize [64] 1024)
   \<and> restorations (newEffects narrowHeader
        (run [Resize [64] 780, Resize [64] 1024, Resize [64] 1200] narrowHeader)) = 1
   \<and> menuDrawerHiddenWidth
        (run [Resize [64] 780, Resize [64] 1024, Resize [64] 1200] narrowHeader) = None
   \<and> \<not> menuHidden (run [Resize [64] 780, Resize [64] 1024, Resize [64] 1200] narrowHeader)
   \<and> restorations (newEffects narrowHeader (run [Resize [64] 780] narrowHeader)) = 0
   \<and> menuDrawerHiddenWidth (run [Resize [64] 780] narrowHeader) = Some 800"
proof -
  have a: "menuDrawerHiddenWidth narrowHeader = Some 800" and b: "resizeObserving narrowHeader"
    by (simp_all add: narrowHeader_eval newHeader_def)
  have nz: "(800::int) \<noteq> 0" by simp
  have r3: "\<forall>e \<in> set [Resize [64] 780, Resize [64] 1024, Resize [64] 1200]. isResize e"
    and r1: "\<forall>e \<in> set [Resize [64] 780]. isResize e"
    by simp_all
  have w3: "\<exists>e \<in> set [Resize [64] 780, Resize [64] 1024, Resize [64] 1200]. widensPast 800 e"
    and w1: "\<not> (\<exists>e \<in> set [Resize [64] 780]. widensPast 800 e)"
    by simp_all
  note wide = menu_restored_once_on_widening [OF a nz b r3, where e = TimeoutFire]
  note narrow = menu_restored_once_on_widening [OF a nz b r1, where e = TimeoutFire]
  have c: "restorations (newEffects narrowHeader
        (run [Resize [64] 780, Resize [64] 1024, Resize [64] 1200] narrowHeader)) = 1"
    and d: "menuDrawerHiddenWidth
        (run [Resize [64] 780, Resize [64] 1024, Resize [64] 1200] narrowHeader) = None"
    and e: "\<not> menuHidden (run [Resize [64] 780, Resize [64] 1024, Resize [64] 1200] narrowHeader)"
    using wide w3 by simp_all
  have f: "restorations (newEffects narrowHeader (run [Resize [64] 780] narrowHeader)) = 0"
    and g: "menuDrawerHiddenWidth (run [Resize [64] 780] narrowHeader) = Some 800"
    using narrow w1 by simp_all
  from a b c d e f g show ?thesis by simp
qed

text \<open>
  The claim as stated fails: the field is also cleared, with the menu restored, by an
  \<^verbatim>\<open>overflowMinimum\<close> event that reports \<^verbatim>\<open>minimumReached = false\<close>, while the viewport
  keeps the width 800 at which the menu was hidden.
\<close>

theorem menu_cleared_without_widening_counterexample:
  "menuDrawerHiddenWidth narrowHeader = Some 800
   \<and> \<not> widensPast 800 (OverflowMinimum False 800)
   \<and> menuDrawerHiddenWidth (step (OverflowMinimum False 800) narrowHeader) = None
   \<and> \<not> menuHidden (step (OverflowMinimum False 800) narrowHeader)
   \<and> drawerDesktopHidden (step (OverflowMinimum False 800) narrowHeader)"
  by (simp add: narrowHeader_eval newHeader_def handleOverflowMinimum_def
        updateMenuVisibility_def)

end
